theory Spec2Isabelle
  imports
    Main
    "HOL-Library.Char_ord"
    "HOL-Library.List_Lexorder"
    "HOL-Library.Product_Lexorder"
begin

section \<open>The SQLite store of \<open>slack_archiver.py\<close>\<close>

text \<open>
  \<open>setup_database\<close> creates two tables. A table is the list of its rows in rowid
  (insertion) order. All columns are TEXT, compared bytewise by SQLite, which is the
  lexicographic order on \<open>string\<close> (bytes by \<open>Char_ord\<close>, lists by \<open>List_Lexorder\<close>).
  Only \<open>last_archived_timestamp\<close> is ever written as NULL.
\<close>

record channel_row =
  channel_id :: string
  channel_name :: string
  last_archived_timestamp :: "string option"

record message_row =
  message_id :: string
  msg_channel_id :: string
  timestamp :: string
  user :: string
  msg_text :: string

record database =
  channels :: "channel_row list"
  messages :: "message_row list"

text \<open>
  The exceptions that can leave a method: \<open>SlackApiError\<close> (the only one the source
  catches), any \<open>sqlite3\<close> error (\<open>StorageError\<close>), \<open>KeyError\<close> of a dict subscript and
  the \<open>OverflowError\<close> of binding a Python int outside SQLite's 64-bit range.
\<close>

datatype error = SlackApiError string | StorageError | KeyError string | OverflowError

text \<open>
  A Slack message is a dict; only its string entries \<open>ts\<close>, \<open>user\<close> and \<open>text\<close> are read.
  The response of \<open>conversations_history\<close> carries the page and Slack's \<open>has_more\<close> flag;
  the source reads only \<open>messages_result['messages']\<close>.
\<close>

type_synonym message = "string \<rightharpoonup> string"

record history_response =
  resp_messages :: "message list"
  has_more :: bool

text \<open>
  The \<open>WebClient\<close> is an external library: it is a parameter. \<open>conversations_info c\<close>
  yields the channel's name, \<open>conversations_history c oldest limit\<close> one page; both may
  raise.
\<close>

record slack_client =
  conversations_info :: "string \<Rightarrow> error + string"
  conversations_history :: "string \<Rightarrow> string \<Rightarrow> nat \<Rightarrow> error + history_response"

text \<open>
  Storage faults are injected by an oracle: \<open>F k\<close> says that the \<open>k\<close>-th SQL statement of
  the current connection raises.
\<close>

type_synonym faults = "nat \<Rightarrow> bool"

definition no_faults :: faults where
  "no_faults = (\<lambda>k. False)"

text \<open>
  \<open>CREATE TABLE IF NOT EXISTS\<close>: a fresh file (\<open>None\<close>) gets two empty tables, an existing
  database is left as it is.
\<close>

definition setup_database :: "database option \<Rightarrow> database" where
  "setup_database old =
     (case old of None \<Rightarrow> \<lparr>channels = [], messages = []\<rparr> | Some db \<Rightarrow> db)"

text \<open>
  \<open>with sqlite3.connect(...) as conn\<close>: the body's statements run in one transaction;
  leaving the block normally commits, leaving it by an exception rolls back and
  re-raises.
\<close>

definition with_connection ::
  "(database \<Rightarrow> error + database) \<Rightarrow> database \<Rightarrow> (error + unit) \<times> database" where
  "with_connection body db =
     (case body db of Inl e \<Rightarrow> (Inl e, db) | Inr db' \<Rightarrow> (Inr (), db'))"

subsection \<open>\<open>add_channel_to_archive\<close>\<close>

text \<open>
  \<open>INSERT OR REPLACE INTO channels\<close>: a row with the same primary key \<open>channel_id\<close> is
  deleted and the new row is appended.
\<close>

definition insert_or_replace :: "channel_row \<Rightarrow> channel_row list \<Rightarrow> channel_row list" where
  "insert_or_replace r rows = filter (\<lambda>r'. channel_id r' \<noteq> channel_id r) rows @ [r]"

definition add_channel_to_archive ::
  "faults \<Rightarrow> slack_client \<Rightarrow> string \<Rightarrow> database \<Rightarrow> (error + unit) \<times> database" where
  "add_channel_to_archive F client cid db =
     (case conversations_info client cid of
        Inl e \<Rightarrow> (case e of SlackApiError s \<Rightarrow> (Inr (), db) | _ \<Rightarrow> (Inl e, db))
      | Inr name \<Rightarrow>
          with_connection (\<lambda>d.
            if F 0 then Inl StorageError
            else
              let d' = d\<lparr>channels :=
                         insert_or_replace
                           \<lparr>channel_id = cid, channel_name = name,
                            last_archived_timestamp = None\<rparr> (channels d)\<rparr>
              in if F 1 then Inl StorageError else Inr d') db)"

subsection \<open>\<open>archive_channel_messages\<close>\<close>

text \<open>
  \<open>SELECT last_archived_timestamp FROM channels WHERE channel_id = ?\<close> with \<open>fetchone()\<close>:
  \<open>None\<close> when there is no row, otherwise the row's (nullable) column.
\<close>

definition fetchone_cursor :: "database \<Rightarrow> string \<Rightarrow> string option option" where
  "fetchone_cursor db cid =
     map_option last_archived_timestamp (find (\<lambda>r. channel_id r = cid) (channels db))"

text \<open>\<open>last_timestamp = result[0] if result else None\<close>\<close>

definition last_timestamp :: "database \<Rightarrow> string \<Rightarrow> string option" where
  "last_timestamp db cid = (case fetchone_cursor db cid of None \<Rightarrow> None | Some c \<Rightarrow> c)"

text \<open>\<open>oldest = last_timestamp or '0'\<close>: \<open>None\<close> and the empty string are falsy.\<close>

definition oldest :: "string option \<Rightarrow> string" where
  "oldest lt = (case lt of None \<Rightarrow> ''0'' | Some s \<Rightarrow> if s = [] then ''0'' else s)"

text \<open>
  \<open>INSERT OR IGNORE INTO messages\<close>: the primary key of the table is \<open>message_id\<close>
  alone; a row whose \<open>message_id\<close> is present is dropped.
\<close>

definition insert_or_ignore :: "message_row \<Rightarrow> message_row list \<Rightarrow> message_row list" where
  "insert_or_ignore r rows =
     (if message_id r \<in> set (map message_id rows) then rows else rows @ [r])"

definition message_to_row :: "string \<Rightarrow> string \<Rightarrow> message \<Rightarrow> message_row" where
  "message_to_row cid ts m =
     \<lparr>message_id = ts, msg_channel_id = cid, timestamp = ts,
      user = (case m ''user'' of None \<Rightarrow> ''N/A'' | Some u \<Rightarrow> u),
      msg_text = (case m ''text'' of None \<Rightarrow> [] | Some t \<Rightarrow> t)\<rparr>"

text \<open>
  The \<open>for message in messages_result['messages']\<close> loop; \<open>k\<close> is the number of the next
  statement. The parameter tuple is built first (\<open>message['ts']\<close> may raise), then the
  statement runs.
\<close>

fun insert_messages ::
  "faults \<Rightarrow> nat \<Rightarrow> string \<Rightarrow> message list \<Rightarrow> message_row list \<Rightarrow> error + message_row list" where
  "insert_messages F k cid [] rows = Inr rows"
| "insert_messages F k cid (m # ms) rows =
     (case m ''ts'' of
        None \<Rightarrow> Inl (KeyError ''ts'')
      | Some ts \<Rightarrow>
          if F k then Inl StorageError
          else insert_messages F (Suc k) cid ms (insert_or_ignore (message_to_row cid ts m) rows))"

text \<open>\<open>UPDATE channels SET last_archived_timestamp = ? WHERE channel_id = ?\<close>\<close>

definition update_cursor :: "string \<Rightarrow> string \<Rightarrow> channel_row list \<Rightarrow> channel_row list" where
  "update_cursor cid ts rows =
     map (\<lambda>r. if channel_id r = cid then r\<lparr>last_archived_timestamp := Some ts\<rparr> else r) rows"

text \<open>
  \<open>if messages_result['messages']: cursor.execute(UPDATE ..., (messages[0]['ts'], channel_id))\<close>
\<close>

definition update_last_archived ::
  "faults \<Rightarrow> nat \<Rightarrow> string \<Rightarrow> message list \<Rightarrow> channel_row list \<Rightarrow> error + channel_row list" where
  "update_last_archived F k cid msgs rows =
     (case msgs of
        [] \<Rightarrow> Inr rows
      | m # ms \<Rightarrow>
          (case m ''ts'' of
             None \<Rightarrow> Inl (KeyError ''ts'')
           | Some ts \<Rightarrow> if F k then Inl StorageError else Inr (update_cursor cid ts rows)))"

text \<open>
  The body of the \<open>with\<close> block. Statement 0 is the SELECT, statements \<open>1..n\<close> the
  INSERTs of a page of \<open>n\<close> messages, \<open>n + 1\<close> the UPDATE and \<open>n + 2\<close> the commit. A
  \<open>SlackApiError\<close> of the one call to \<open>conversations_history\<close> is caught and printed;
  nothing has been written then.
\<close>

definition archive_body :: "faults \<Rightarrow> slack_client \<Rightarrow> string \<Rightarrow> database \<Rightarrow> error + database" where
  "archive_body F client cid db =
     (if F 0 then Inl StorageError
      else
        case conversations_history client cid (oldest (last_timestamp db cid)) 50 of
          Inl e \<Rightarrow> (case e of SlackApiError s \<Rightarrow> Inr db | _ \<Rightarrow> Inl e)
        | Inr messages_result \<Rightarrow>
            (let msgs = resp_messages messages_result in
             case insert_messages F 1 cid msgs (messages db) of
               Inl e \<Rightarrow> Inl e
             | Inr rows \<Rightarrow>
                 (case update_last_archived F (Suc (length msgs)) cid msgs (channels db) of
                    Inl e \<Rightarrow> Inl e
                  | Inr chans \<Rightarrow>
                      if F (length msgs + 2) then Inl StorageError
                      else Inr \<lparr>channels = chans, messages = rows\<rparr>)))"

definition archive_channel_messages ::
  "faults \<Rightarrow> slack_client \<Rightarrow> string \<Rightarrow> database \<Rightarrow> (error + unit) \<times> database" where
  "archive_channel_messages F client cid db = with_connection (archive_body F client cid) db"

subsection \<open>\<open>get_channel_messages\<close>\<close>

record message_dict =
  d_message_id :: string
  d_timestamp :: string
  d_user :: string
  d_text :: string

definition row_to_dict :: "message_row \<Rightarrow> message_dict" where
  "row_to_dict r =
     \<lparr>d_message_id = message_id r, d_timestamp = timestamp r, d_user = user r,
      d_text = msg_text r\<rparr>"

text \<open>A Python int is bound to a statement as a 64-bit integer, or the binding raises.\<close>

definition sqlite_int :: "int \<Rightarrow> bool" where
  "sqlite_int i \<longleftrightarrow> - (2 ^ 63) \<le> i \<and> i < 2 ^ 63"

text \<open>
  \<open>LIMIT ? OFFSET ?\<close>: a negative limit is no limit, a negative offset is 0.
\<close>

definition limit_offset :: "int \<Rightarrow> int \<Rightarrow> 'a list \<Rightarrow> 'a list" where
  "limit_offset limit offset rows =
     (let rest = drop (nat offset) rows
      in if limit < 0 then rest else take (nat limit) rest)"

text \<open>
  \<open>SELECT ... FROM messages WHERE channel_id = ? ORDER BY timestamp LIMIT ? OFFSET ?\<close>,
  with \<open>limit\<close> and \<open>offset\<close> the ints of the signature. SQL leaves the order of rows
  with equal \<open>timestamp\<close> open; the model keeps them in rowid order.
\<close>

definition get_channel_messages ::
  "database \<Rightarrow> string \<Rightarrow> int \<Rightarrow> int \<Rightarrow> error + message_dict list" where
  "get_channel_messages db cid limit offset =
     (if \<not> sqlite_int limit \<or> \<not> sqlite_int offset then Inl OverflowError
      else
        Inr (map row_to_dict
               (limit_offset limit offset
                  (sort_key timestamp (filter (\<lambda>r. msg_channel_id r = cid) (messages db))))))"

subsection \<open>\<open>schedule_archiving\<close>\<close>

text \<open>
  The \<open>for (channel_id,) in channels\<close> loop: there is no \<open>try\<close> around the call, so an
  exception leaving \<open>archive_channel_messages\<close> ends the loop. \<open>FS c\<close> is the fault
  oracle of the connection opened for channel \<open>c\<close>.
\<close>

fun archive_each ::
  "(string \<Rightarrow> faults) \<Rightarrow> slack_client \<Rightarrow> string list \<Rightarrow> database \<Rightarrow> (error + unit) \<times> database" where
  "archive_each FS client [] db = (Inr (), db)"
| "archive_each FS client (cid # cids) db =
     (case archive_channel_messages (FS cid) client cid db of
        (Inl e, db') \<Rightarrow> (Inl e, db')
      | (Inr u, db') \<Rightarrow> archive_each FS client cids db')"

text \<open>
  \<open>SELECT channel_id FROM channels\<close> (statement 0 of its own connection, oracle \<open>F\<close>), then
  the loop. SQLite answers this query from the index of the primary key \<open>channel_id\<close>,
  so the ids come in ascending bytewise order of \<open>channel_id\<close>, not in the order in
  which the channels were registered. The final \<open>time.sleep(60)\<close> has no effect on the
  store.
\<close>

definition schedule_archiving ::
  "faults \<Rightarrow> (string \<Rightarrow> faults) \<Rightarrow> slack_client \<Rightarrow> database \<Rightarrow> (error + unit) \<times> database" where
  "schedule_archiving F FS client db =
     (if F 0 then (Inl StorageError, db)
      else archive_each FS client (sort (map channel_id (channels db))) db)"

subsection \<open>Reachable stores\<close>

text \<open>
  The stores that the methods of \<open>SlackArchiver\<close> can produce from a fresh database file,
  under any client behaviour and any storage faults.
\<close>

inductive reachable :: "database \<Rightarrow> bool" where
  fresh: "reachable (setup_database None)"
| add: "reachable db \<Longrightarrow> reachable (snd (add_channel_to_archive F client cid db))"
| archive: "reachable db \<Longrightarrow> reachable (snd (archive_channel_messages F client cid db))"
| schedule: "reachable db \<Longrightarrow> reachable (snd (schedule_archiving F FS client db))"

subsection \<open>Scenarios\<close>

text \<open>
  Concrete inputs for the scenarios examined below: Slack messages, a client that serves
  a first page of three messages (positions 098, 099, 100, more to come) to any lower
  bound before 100 and a second page (position 150, end reached) from 100 on, a client
  that holds the three messages of the first page and serves those above the lower bound
  newest first, as Slack does, a client whose two channels each hold a message with the same \<open>ts\<close>, a client whose channel
  \<open>A\<close> is unknown upstream, and a fault oracle.
\<close>

definition slack_message :: "string \<Rightarrow> string \<Rightarrow> string \<Rightarrow> message" where
  "slack_message ts u t = [''ts'' \<mapsto> ts, ''user'' \<mapsto> u, ''text'' \<mapsto> t]"

definition page1 :: "message list" where
  "page1 =
     [slack_message ''098'' ''U1'' ''one'', slack_message ''099'' ''U2'' ''two'',
      slack_message ''100'' ''U1'' ''three'']"

definition page2 :: "message list" where
  "page2 = [slack_message ''150'' ''U2'' ''four'']"

definition paged_client :: slack_client where
  "paged_client =
     \<lparr>conversations_info = (\<lambda>c. Inr ''general''),
      conversations_history = (\<lambda>c since n.
        if since < ''100'' then Inr \<lparr>resp_messages = page1, has_more = True\<rparr>
        else if since < ''150'' then Inr \<lparr>resp_messages = page2, has_more = False\<rparr>
        else Inr \<lparr>resp_messages = [], has_more = False\<rparr>)\<rparr>"

definition newest_first_client :: slack_client where
  "newest_first_client =
     \<lparr>conversations_info = (\<lambda>c. Inr ''general''),
      conversations_history = (\<lambda>c since n.
        Inr \<lparr>resp_messages =
               take n (filter (\<lambda>m. case m ''ts'' of None \<Rightarrow> False | Some ts \<Rightarrow> since < ts)
                         (rev page1)),
             has_more = False\<rparr>)\<rparr>"

definition same_ts_client :: slack_client where
  "same_ts_client =
     \<lparr>conversations_info = (\<lambda>c. Inr c),
      conversations_history = (\<lambda>c since n.
        Inr \<lparr>resp_messages = [slack_message ''100'' ''U1'' c], has_more = False\<rparr>)\<rparr>"

definition unknown_A_client :: slack_client where
  "unknown_A_client =
     \<lparr>conversations_info = (\<lambda>c. Inr c),
      conversations_history = (\<lambda>c since n.
        if c = ''A'' then Inl (SlackApiError ''channel_not_found'')
        else Inr \<lparr>resp_messages = [slack_message ''100'' ''U1'' c], has_more = False\<rparr>)\<rparr>"

definition fault_at :: "nat \<Rightarrow> faults" where
  "fault_at n = (\<lambda>k. k = n)"

definition faults_in :: "string \<Rightarrow> nat \<Rightarrow> string \<Rightarrow> faults" where
  "faults_in c n = (\<lambda>c'. if c' = c then fault_at n else no_faults)"

definition registered :: "slack_client \<Rightarrow> string list \<Rightarrow> database" where
  "registered client cids =
     fold (\<lambda>c d. snd (add_channel_to_archive no_faults client c d)) cids (setup_database None)"

section \<open>Properties of the store operations\<close>

lemmas store_defs =
  archive_channel_messages_def with_connection_def archive_body_def add_channel_to_archive_def
  setup_database_def insert_or_replace_def last_timestamp_def fetchone_cursor_def oldest_def
  insert_or_ignore_def message_to_row_def update_last_archived_def update_cursor_def
  schedule_archiving_def get_channel_messages_def limit_offset_def row_to_dict_def sqlite_int_def

lemmas scenario_defs =
  registered_def paged_client_def newest_first_client_def same_ts_client_def
  unknown_A_client_def no_faults_def fault_at_def faults_in_def page1_def page2_def
  slack_message_def

lemma with_connection_cases:
  "(\<exists>db'. body db = Inr db' \<and> with_connection body db = (Inr (), db'))
   \<or> (\<exists>e. body db = Inl e \<and> with_connection body db = (Inl e, db))"
  by (cases "body db") (simp_all add: with_connection_def)

lemma insert_or_ignore_ids:
  "message_id ` set (insert_or_ignore r rows) = insert (message_id r) (message_id ` set rows)"
  by (auto simp: insert_or_ignore_def)

lemma insert_or_ignore_distinct:
  "distinct (map message_id rows) \<Longrightarrow> distinct (map message_id (insert_or_ignore r rows))"
  by (auto simp: insert_or_ignore_def)

lemma insert_or_ignore_length:
  "length (insert_or_ignore r rows) \<le> Suc (length rows)"
  by (simp add: insert_or_ignore_def)

lemma insert_messages_append:
  "insert_messages F k cid ms rows = Inr rows' \<Longrightarrow>
     \<exists>new. rows' = rows @ new
       \<and> (\<forall>r\<in>set new. msg_channel_id r = cid \<and> timestamp r = message_id r)"
proof (induction ms arbitrary: k rows)
  case Nil
  then show ?case by simp
next
  case (Cons m ms)
  from Cons.prems obtain ts where ts: "m ''ts'' = Some ts" and nf: "\<not> F k"
    and rec: "insert_messages F (Suc k) cid ms (insert_or_ignore (message_to_row cid ts m) rows) = Inr rows'"
    by (auto split: option.splits if_splits)
  from Cons.IH [OF rec] obtain new where
    new: "rows' = insert_or_ignore (message_to_row cid ts m) rows @ new"
      "\<forall>r\<in>set new. msg_channel_id r = cid \<and> timestamp r = message_id r"
    by blast
  show ?case
  proof (cases "ts \<in> message_id ` set rows")
    case True
    with new show ?thesis by (auto simp: insert_or_ignore_def message_to_row_def)
  next
    case False
    with new have "rows' = rows @ (message_to_row cid ts m # new)"
      by (simp add: insert_or_ignore_def message_to_row_def)
    moreover have "\<forall>r\<in>set (message_to_row cid ts m # new). msg_channel_id r = cid \<and> timestamp r = message_id r"
      using new(2) by (simp add: message_to_row_def)
    ultimately show ?thesis by blast
  qed
qed

lemma insert_messages_ids:
  "insert_messages F k cid ms rows = Inr rows' \<Longrightarrow>
     message_id ` set rows \<subseteq> message_id ` set rows'
     \<and> (\<forall>m\<in>set ms. \<exists>ts. m ''ts'' = Some ts \<and> ts \<in> message_id ` set rows')"
proof (induction ms arbitrary: k rows)
  case Nil
  then show ?case by simp
next
  case (Cons m ms)
  from Cons.prems obtain ts where ts: "m ''ts'' = Some ts"
    and rec: "insert_messages F (Suc k) cid ms (insert_or_ignore (message_to_row cid ts m) rows) = Inr rows'"
    by (auto split: option.splits if_splits)
  from Cons.IH [OF rec] have
    sub: "message_id ` set (insert_or_ignore (message_to_row cid ts m) rows) \<subseteq> message_id ` set rows'"
    and rest: "\<forall>m\<in>set ms. \<exists>ts. m ''ts'' = Some ts \<and> ts \<in> message_id ` set rows'"
    by blast+
  have "message_id (message_to_row cid ts m) = ts"
    by (simp add: message_to_row_def)
  with sub have "ts \<in> message_id ` set rows'" and "message_id ` set rows \<subseteq> message_id ` set rows'"
    unfolding insert_or_ignore_ids by auto
  with ts rest show ?case by simp
qed

lemma insert_messages_distinct:
  "insert_messages F k cid ms rows = Inr rows' \<Longrightarrow> distinct (map message_id rows) \<Longrightarrow>
     distinct (map message_id rows')"
proof (induction ms arbitrary: k rows)
  case Nil
  then show ?case by simp
next
  case (Cons m ms)
  from Cons.prems(1) obtain ts where
    rec: "insert_messages F (Suc k) cid ms (insert_or_ignore (message_to_row cid ts m) rows) = Inr rows'"
    by (auto split: option.splits if_splits)
  show ?case
    by (rule Cons.IH [OF rec]) (rule insert_or_ignore_distinct [OF Cons.prems(2)])
qed

lemma insert_messages_length:
  "insert_messages F k cid ms rows = Inr rows' \<Longrightarrow> length rows' \<le> length rows + length ms"
proof (induction ms arbitrary: k rows)
  case Nil
  then show ?case by simp
next
  case (Cons m ms)
  from Cons.prems(1) obtain ts where
    rec: "insert_messages F (Suc k) cid ms (insert_or_ignore (message_to_row cid ts m) rows) = Inr rows'"
    by (auto split: option.splits if_splits)
  from Cons.IH [OF rec] insert_or_ignore_length [of "message_to_row cid ts m" rows]
  show ?case by simp
qed

lemma find_update_cursor:
  "map_option last_archived_timestamp (find (\<lambda>r. channel_id r = c) (update_cursor cid ts rows)) =
     (if c = cid then map_option (\<lambda>r. Some ts) (find (\<lambda>r. channel_id r = c) rows)
      else map_option last_archived_timestamp (find (\<lambda>r. channel_id r = c) rows))"
  by (induction rows) (auto simp: update_cursor_def)

lemma insert_messages_Inl_iff:
  "(\<exists>e. insert_messages F k cid ms rows = Inl e) \<longleftrightarrow>
     (\<exists>i<length ms. F (k + i)) \<or> (\<exists>m\<in>set ms. m ''ts'' = None)"
proof (induction ms arbitrary: k rows)
  case Nil
  then show ?case by simp
next
  case (Cons m ms)
  show ?case
  proof (cases "m ''ts''")
    case None
    then show ?thesis by auto
  next
    case (Some ts)
    show ?thesis
    proof (cases "F k")
      case True
      then have "\<exists>i<length (m # ms). F (k + i)" by (intro exI [of _ 0]) simp
      with True Some show ?thesis by simp
    next
      case False
      have shift: "(\<exists>i<length (m # ms). F (k + i)) \<longleftrightarrow> (\<exists>i<length ms. F (Suc k + i))"
      proof
        assume "\<exists>i<length (m # ms). F (k + i)"
        then obtain i where i: "i < Suc (length ms)" "F (k + i)" by auto
        with False obtain j where "i = Suc j" by (cases i) auto
        with i show "\<exists>i<length ms. F (Suc k + i)" by auto
      next
        assume "\<exists>i<length ms. F (Suc k + i)"
        then obtain j where "j < length ms" "F (k + Suc j)" by auto
        then show "\<exists>i<length (m # ms). F (k + i)" by (intro exI [of _ "Suc j"]) simp
      qed
      from Some False Cons.IH [of "Suc k" "insert_or_ignore (message_to_row cid ts m) rows"]
      show ?thesis unfolding shift by simp
    qed
  qed
qed

lemma update_last_archived_Inr:
  "update_last_archived F k cid msgs rows = Inr chans \<Longrightarrow>
     (msgs = [] \<and> chans = rows)
     \<or> (\<exists>m ms ts. msgs = m # ms \<and> m ''ts'' = Some ts \<and> \<not> F k \<and> chans = update_cursor cid ts rows)"
  by (auto simp: update_last_archived_def split: list.splits option.splits if_splits)

lemma update_last_archived_Inl_iff:
  "(\<exists>e. update_last_archived F k cid msgs rows = Inl e) \<longleftrightarrow>
     msgs \<noteq> [] \<and> (hd msgs ''ts'' = None \<or> F k)"
  by (auto simp: update_last_archived_def split: list.splits option.splits if_splits)

lemma fetchone_cursor_update_last_archived:
  "update_last_archived F k cid msgs (channels db) = Inr chans \<Longrightarrow>
     fetchone_cursor \<lparr>channels = chans, messages = rows\<rparr> c =
       (if c = cid then
          (case msgs of [] \<Rightarrow> fetchone_cursor db c
           | m # ms \<Rightarrow> map_option (\<lambda>old. m ''ts'') (fetchone_cursor db c))
        else fetchone_cursor db c)"
  by (auto simp: fetchone_cursor_def find_update_cursor option.map_comp comp_def
      dest!: update_last_archived_Inr split: list.splits)

lemma archive_body_Inr:
  assumes "conversations_history client cid (oldest (last_timestamp db cid)) 50 = Inr resp"
    and "archive_body F client cid db = Inr db'"
  shows "\<exists>rows chans.
           insert_messages F 1 cid (resp_messages resp) (messages db) = Inr rows
         \<and> update_last_archived F (Suc (length (resp_messages resp))) cid (resp_messages resp)
             (channels db) = Inr chans
         \<and> db' = \<lparr>channels = chans, messages = rows\<rparr>"
  using assms by (auto simp: archive_body_def Let_def split: if_splits sum.splits)

lemma archive_body_Inl_iff:
  assumes "conversations_history client cid (oldest (last_timestamp db cid)) 50 = Inr resp"
  shows "(\<exists>e. archive_body F client cid db = Inl e) \<longleftrightarrow>
           F 0
         \<or> (\<exists>e. insert_messages F 1 cid (resp_messages resp) (messages db) = Inl e)
         \<or> (\<exists>e. update_last_archived F (Suc (length (resp_messages resp))) cid (resp_messages resp)
                  (channels db) = Inl e)
         \<or> F (length (resp_messages resp) + 2)"
  using assms by (auto simp: archive_body_def Let_def split: if_splits sum.splits)

lemma archive_failure_rolls_back:
  "fst (archive_channel_messages F client cid db) = Inl e \<Longrightarrow>
     snd (archive_channel_messages F client cid db) = db"
  by (auto simp: archive_channel_messages_def with_connection_def split: sum.splits)

lemma archive_body_messages:
  "archive_body F client cid db = Inr db' \<Longrightarrow>
     \<exists>new. messages db' = messages db @ new
       \<and> (\<forall>r\<in>set new. msg_channel_id r = cid \<and> timestamp r = message_id r)"
proof (cases "conversations_history client cid (oldest (last_timestamp db cid)) 50")
  case (Inl e)
  assume "archive_body F client cid db = Inr db'"
  with Inl have "db' = db"
    by (auto simp: archive_body_def split: if_splits error.splits)
  then show ?thesis by simp
next
  case (Inr resp)
  assume "archive_body F client cid db = Inr db'"
  from archive_body_Inr [OF Inr this] obtain rows chans where
    "insert_messages F 1 cid (resp_messages resp) (messages db) = Inr rows"
    "db' = \<lparr>channels = chans, messages = rows\<rparr>" by blast
  with insert_messages_append [of F 1 cid "resp_messages resp" "messages db" rows]
  show ?thesis by simp
qed

lemma archive_body_distinct:
  assumes "archive_body F client cid db = Inr db'" and "distinct (map message_id (messages db))"
  shows "distinct (map message_id (messages db'))"
proof (cases "conversations_history client cid (oldest (last_timestamp db cid)) 50")
  case (Inl e)
  with assms(1) have "db' = db"
    by (auto simp: archive_body_def split: if_splits error.splits)
  with assms(2) show ?thesis by simp
next
  case (Inr resp)
  from archive_body_Inr [OF Inr assms(1)] obtain rows chans where
    "insert_messages F 1 cid (resp_messages resp) (messages db) = Inr rows"
    "db' = \<lparr>channels = chans, messages = rows\<rparr>" by blast
  with insert_messages_distinct [of F 1 cid "resp_messages resp" "messages db" rows] assms(2)
  show ?thesis by simp
qed

lemma archive_run_cases:
  assumes "conversations_history client cid (oldest (last_timestamp db cid)) 50 = Inr resp"
  shows "((\<exists>db'. archive_channel_messages F client cid db = (Inr (), db')
            \<and> (\<forall>m\<in>set (resp_messages resp).
                  \<exists>ts. m ''ts'' = Some ts \<and> ts \<in> message_id ` set (messages db'))
            \<and> (\<exists>new. messages db' = messages db @ new)
            \<and> fetchone_cursor db' cid =
                (case resp_messages resp of
                   [] \<Rightarrow> fetchone_cursor db cid
                 | m # ms \<Rightarrow> map_option (\<lambda>old. m ''ts'') (fetchone_cursor db cid)))
         \<or> (\<exists>e. archive_channel_messages F client cid db = (Inl e, db)))
       \<and> ((\<exists>e. archive_channel_messages F client cid db = (Inl e, db)) \<longleftrightarrow>
             F 0
           \<or> (\<exists>i<length (resp_messages resp). F (1 + i))
           \<or> (\<exists>m\<in>set (resp_messages resp). m ''ts'' = None)
           \<or> (resp_messages resp \<noteq> [] \<and> F (Suc (length (resp_messages resp))))
           \<or> F (length (resp_messages resp) + 2))"
proof
  let ?run = "archive_channel_messages F client cid db"
  let ?msgs = "resp_messages resp"
  from with_connection_cases [of "archive_body F client cid" db]
  consider (ok) db' where "archive_body F client cid db = Inr db'" "?run = (Inr (), db')"
    | (fail) e where "?run = (Inl e, db)"
    unfolding archive_channel_messages_def by blast
  then show "(\<exists>db'. ?run = (Inr (), db')
            \<and> (\<forall>m\<in>set ?msgs. \<exists>ts. m ''ts'' = Some ts \<and> ts \<in> message_id ` set (messages db'))
            \<and> (\<exists>new. messages db' = messages db @ new)
            \<and> fetchone_cursor db' cid =
                (case ?msgs of
                   [] \<Rightarrow> fetchone_cursor db cid
                 | m # ms \<Rightarrow> map_option (\<lambda>old. m ''ts'') (fetchone_cursor db cid)))
         \<or> (\<exists>e. ?run = (Inl e, db))"
  proof cases
    case ok
    from archive_body_Inr [OF assms ok(1)] obtain rows chans where
      ins: "insert_messages F 1 cid ?msgs (messages db) = Inr rows"
      and upd: "update_last_archived F (Suc (length ?msgs)) cid ?msgs (channels db) = Inr chans"
      and db': "db' = \<lparr>channels = chans, messages = rows\<rparr>"
      by blast
    from insert_messages_ids [OF ins] db'
    have stored: "\<forall>m\<in>set ?msgs. \<exists>ts. m ''ts'' = Some ts \<and> ts \<in> message_id ` set (messages db')"
      by simp
    from insert_messages_append [OF ins] db'
    have kept: "\<exists>new. messages db' = messages db @ new"
      by auto
    from fetchone_cursor_update_last_archived [OF upd, of rows cid] db'
    have "fetchone_cursor db' cid =
            (case ?msgs of
               [] \<Rightarrow> fetchone_cursor db cid
             | m # ms \<Rightarrow> map_option (\<lambda>old. m ''ts'') (fetchone_cursor db cid))"
      by simp
    with ok(2) stored kept show ?thesis by blast
  next
    case fail
    then show ?thesis by blast
  qed
next
  let ?msgs = "resp_messages resp"
  have "(\<exists>e. archive_channel_messages F client cid db = (Inl e, db)) \<longleftrightarrow>
          (\<exists>e. archive_body F client cid db = Inl e)"
    by (auto simp: archive_channel_messages_def with_connection_def split: sum.splits)
  also have "\<dots> \<longleftrightarrow>
       F 0
     \<or> (\<exists>i<length ?msgs. F (1 + i)) \<or> (\<exists>m\<in>set ?msgs. m ''ts'' = None)
     \<or> (?msgs \<noteq> [] \<and> (hd ?msgs ''ts'' = None \<or> F (Suc (length ?msgs))))
     \<or> F (length ?msgs + 2)"
    unfolding archive_body_Inl_iff [OF assms] insert_messages_Inl_iff update_last_archived_Inl_iff
    by blast
  also have "\<dots> \<longleftrightarrow>
       F 0
     \<or> (\<exists>i<length ?msgs. F (1 + i)) \<or> (\<exists>m\<in>set ?msgs. m ''ts'' = None)
     \<or> (?msgs \<noteq> [] \<and> F (Suc (length ?msgs)))
     \<or> F (length ?msgs + 2)"
    using hd_in_set [of ?msgs] by blast
  finally show "(\<exists>e. archive_channel_messages F client cid db = (Inl e, db)) \<longleftrightarrow>
       F 0
     \<or> (\<exists>i<length ?msgs. F (1 + i)) \<or> (\<exists>m\<in>set ?msgs. m ''ts'' = None)
     \<or> (?msgs \<noteq> [] \<and> F (Suc (length ?msgs)))
     \<or> F (length ?msgs + 2)" .
qed

lemma find_insert_or_replace:
  "find (\<lambda>r'. channel_id r' = channel_id r) (insert_or_replace r rows) = Some r"
  by (induction rows) (simp_all add: insert_or_replace_def)

lemma sorted_rev_Cons_max:
  fixes t :: "'a::linorder"
  assumes "sorted (rev (t # ts))"
  shows "\<forall>x\<in>set (t # ts). x \<le> t"
  using assms by (auto simp: sorted_append)

lemma set_map_filter:
  "set (List.map_filter f xs) = {y. \<exists>x\<in>set xs. f x = Some y}"
  by (auto simp: List.map_filter_def image_iff) force


lemma update_cursor_unregistered:
  "find (\<lambda>r. channel_id r = cid) rows = None \<Longrightarrow> update_cursor cid ts rows = rows"
  by (induction rows) (auto simp: update_cursor_def split: if_splits)

section \<open>Invariants of reachable stores\<close>

lemma add_channel_messages:
  "messages (snd (add_channel_to_archive F client cid db)) = messages db"
  by (simp add: add_channel_to_archive_def with_connection_def Let_def
      split: sum.splits error.splits)

lemma archive_run_snd:
  "snd (archive_channel_messages F client cid db) = db
   \<or> archive_body F client cid db = Inr (snd (archive_channel_messages F client cid db))"
  by (cases "archive_body F client cid db")
    (simp_all add: archive_channel_messages_def with_connection_def)

lemma archive_keeps_key:
  assumes "distinct (map message_id (messages db))"
    and "\<forall>r\<in>set (messages db). timestamp r = message_id r"
  shows "distinct (map message_id (messages (snd (archive_channel_messages F client cid db))))
       \<and> (\<forall>r\<in>set (messages (snd (archive_channel_messages F client cid db))).
             timestamp r = message_id r)"
proof -
  let ?db' = "snd (archive_channel_messages F client cid db)"
  from archive_run_snd [of F client cid db] show ?thesis
  proof
    assume "?db' = db"
    with assms show ?thesis by simp
  next
    assume body: "archive_body F client cid db = Inr ?db'"
    from archive_body_distinct [OF body assms(1)]
    have d: "distinct (map message_id (messages ?db'))" .
    from archive_body_messages [OF body] obtain new where
      "messages ?db' = messages db @ new" "\<forall>r\<in>set new. timestamp r = message_id r"
      by blast
    with assms(2) have "\<forall>r\<in>set (messages ?db'). timestamp r = message_id r"
      by auto
    with d show ?thesis by simp
  qed
qed

lemma archive_each_keeps_key:
  "distinct (map message_id (messages db)) \<Longrightarrow>
   \<forall>r\<in>set (messages db). timestamp r = message_id r \<Longrightarrow>
     distinct (map message_id (messages (snd (archive_each FS client cids db))))
     \<and> (\<forall>r\<in>set (messages (snd (archive_each FS client cids db))). timestamp r = message_id r)"
proof (induction cids arbitrary: db)
  case Nil
  then show ?case by simp
next
  case (Cons c cids)
  obtain out db' where run: "archive_channel_messages (FS c) client c db = (out, db')"
    by (cases "archive_channel_messages (FS c) client c db")
  from archive_keeps_key [OF Cons.prems, of "FS c" client c] run
  have inv': "distinct (map message_id (messages db'))"
    "\<forall>r\<in>set (messages db'). timestamp r = message_id r"
    by simp_all
  show ?case
  proof (cases out)
    case (Inl e)
    with run inv' show ?thesis by simp
  next
    case (Inr u)
    with run Cons.IH [OF inv'] show ?thesis by simp
  qed
qed

lemma reachable_key:
  "reachable db \<Longrightarrow>
     distinct (map message_id (messages db)) \<and> (\<forall>r\<in>set (messages db). timestamp r = message_id r)"
proof (induction rule: reachable.induct)
  case fresh
  show ?case by (simp add: setup_database_def)
next
  case (add db F client cid)
  then show ?case by (simp add: add_channel_messages)
next
  case (archive db F client cid)
  then show ?case using archive_keeps_key by blast
next
  case (schedule db F FS client)
  then show ?case
    using archive_each_keeps_key [of db FS client "sort (map channel_id (channels db))"]
    by (simp add: schedule_archiving_def)
qed

lemma insort_key_cong_le:
  "(\<And>y. y \<in> set ys \<Longrightarrow> (f x \<le> f y) = (g x \<le> g y)) \<Longrightarrow>
     insort_key f x ys = insort_key g x ys"
  by (induction ys) simp_all

lemma sort_key_cong_le:
  "(\<And>x y. x \<in> set xs \<Longrightarrow> y \<in> set xs \<Longrightarrow> (f x \<le> f y) = (g x \<le> g y)) \<Longrightarrow>
     sort_key f xs = sort_key g xs"
proof (induction xs)
  case Nil
  then show ?case by simp
next
  case (Cons x xs)
  have "sort_key f xs = sort_key g xs"
    by (rule Cons.IH) (simp_all add: Cons.prems)
  moreover have "insort_key f x (sort_key g xs) = insort_key g x (sort_key g xs)"
    by (rule insort_key_cong_le) (simp add: Cons.prems)
  ultimately show ?case by simp
qed

lemma sort_by_timestamp_and_id:
  assumes "\<forall>r\<in>set rows. timestamp r = message_id r"
  shows "sort_key timestamp rows = sort_key (\<lambda>r. (timestamp r, message_id r)) rows"
proof (rule sort_key_cong_le)
  fix x y
  assume "x \<in> set rows" "y \<in> set rows"
  with assms have "timestamp x = message_id x" "timestamp y = message_id y" by simp_all
  then show "(timestamp x \<le> timestamp y)
               = ((timestamp x, message_id x) \<le> (timestamp y, message_id y))"
    by (auto simp: less_eq_prod_def)
qed

lemma sorted_limit_offset:
  "sorted (map f rows) \<Longrightarrow> sorted (map f (limit_offset limit offset rows))"
  by (simp add: limit_offset_def Let_def take_map [symmetric] drop_map [symmetric]
      sorted_wrt_take sorted_wrt_drop del: take_map drop_map)

lemma distinct_pairs:
  "distinct (map f xs) \<Longrightarrow> distinct (map (\<lambda>x. (g x, f x)) xs)"
  by (induction xs) auto

lemma reachable_after_first_run:
  "reachable (snd (archive_channel_messages F client cid (registered client' [c])))"
proof -
  have "reachable (snd (add_channel_to_archive no_faults client' c (setup_database None)))"
    by (rule reachable.add) (rule reachable.fresh)
  then have "reachable (registered client' [c])"
    by (simp add: registered_def)
  then show ?thesis by (rule reachable.archive)
qed

section \<open>Runs over all channels\<close>

lemma archive_slack_error_keeps_store:
  assumes "conversations_history client cid (oldest (last_timestamp db cid)) 50
             = Inl (SlackApiError s)"
  shows "snd (archive_channel_messages F client cid db) = db"
    and "\<not> F 0 \<Longrightarrow> fst (archive_channel_messages F client cid db) = Inr ()"
  using assms
  by (simp_all add: archive_channel_messages_def with_connection_def archive_body_def)

lemma archive_other_channel_cursor:
  assumes "c \<noteq> cid"
  shows "fetchone_cursor (snd (archive_channel_messages F client cid db)) c = fetchone_cursor db c"
proof -
  let ?db' = "snd (archive_channel_messages F client cid db)"
  from archive_run_snd [of F client cid db] show ?thesis
  proof
    assume "?db' = db"
    then show ?thesis by simp
  next
    assume body: "archive_body F client cid db = Inr ?db'"
    show ?thesis
    proof (cases "conversations_history client cid (oldest (last_timestamp db cid)) 50")
      case (Inl e)
      with body have "?db' = db"
        by (auto simp: archive_body_def split: if_splits error.splits)
      then show ?thesis by simp
    next
      case (Inr resp)
      from archive_body_Inr [OF Inr body] obtain rows chans where
        upd: "update_last_archived F (Suc (length (resp_messages resp))) cid (resp_messages resp)
                (channels db) = Inr chans"
        and db': "?db' = \<lparr>channels = chans, messages = rows\<rparr>"
        by blast
      from fetchone_cursor_update_last_archived [OF upd, of rows c] assms
      have "fetchone_cursor \<lparr>channels = chans, messages = rows\<rparr> c = fetchone_cursor db c"
        by simp
      with db' show ?thesis by simp
    qed
  qed
qed

lemma archive_succeeds_without_faults:
  assumes "\<forall>k. \<not> F k"
    and "\<forall>c since e. conversations_history client c since 50 = Inl e \<longrightarrow> (\<exists>s. e = SlackApiError s)"
    and "\<forall>c since r. conversations_history client c since 50 = Inr r \<longrightarrow>
           (\<forall>m\<in>set (resp_messages r). m ''ts'' \<noteq> None)"
  shows "fst (archive_channel_messages F client cid db) = Inr ()"
proof (cases "conversations_history client cid (oldest (last_timestamp db cid)) 50")
  case (Inl e)
  with assms(2) obtain s where "e = SlackApiError s" by blast
  with Inl assms(1) show ?thesis
    by (simp add: archive_slack_error_keeps_store(2))
next
  case (Inr resp)
  with assms(3) have ts: "\<forall>m\<in>set (resp_messages resp). m ''ts'' \<noteq> None" by blast
  from assms(1) ts have "\<not> (\<exists>e. archive_channel_messages F client cid db = (Inl e, db))"
    unfolding conjunct2 [OF archive_run_cases [OF Inr]] by simp
  with conjunct1 [OF archive_run_cases [OF Inr, of F]]
  obtain db' where "archive_channel_messages F client cid db = (Inr (), db')"
    by blast
  then show ?thesis by simp
qed

lemma archive_each_without_faults:
  assumes "\<forall>c k. \<not> FS c k"
    and "\<forall>c since e. conversations_history client c since 50 = Inl e \<longrightarrow> (\<exists>s. e = SlackApiError s)"
    and "\<forall>c since r. conversations_history client c since 50 = Inr r \<longrightarrow>
           (\<forall>m\<in>set (resp_messages r). m ''ts'' \<noteq> None)"
  shows "archive_each FS client cids db =
           (Inr (), fold (\<lambda>c d. snd (archive_channel_messages (FS c) client c d)) cids db)"
proof (induction cids arbitrary: db)
  case Nil
  show ?case by simp
next
  case (Cons c cids)
  from assms(1) have "\<forall>k. \<not> FS c k" by simp
  from archive_succeeds_without_faults [OF this assms(2,3), of c db]
  obtain db' where run: "archive_channel_messages (FS c) client c db = (Inr (), db')"
    by (cases "archive_channel_messages (FS c) client c db") simp
  then have "archive_each FS client (c # cids) db = archive_each FS client cids db'"
    by simp
  with Cons.IH [of db'] run show ?case by simp
qed

lemma fold_archive_keeps_failed_cursor:
  assumes "conversations_history client c (oldest (last_timestamp db c)) 50 = Inl (SlackApiError s)"
  shows "fetchone_cursor d c = fetchone_cursor db c \<Longrightarrow>
           fetchone_cursor (fold (\<lambda>c d. snd (archive_channel_messages (FS c) client c d)) cids d) c
             = fetchone_cursor db c"
proof (induction cids arbitrary: d)
  case Nil
  then show ?case by simp
next
  case (Cons c' cids)
  let ?d' = "snd (archive_channel_messages (FS c') client c' d)"
  have "fetchone_cursor ?d' c = fetchone_cursor db c"
  proof (cases "c' = c")
    case True
    from Cons.prems have "last_timestamp d c = last_timestamp db c"
      by (simp add: last_timestamp_def)
    with assms
    have "conversations_history client c (oldest (last_timestamp d c)) 50 = Inl (SlackApiError s)"
      by simp
    from archive_slack_error_keeps_store(1) [OF this, of "FS c"] True Cons.prems
    show ?thesis by simp
  next
    case False
    then have "c \<noteq> c'" by simp
    from archive_other_channel_cursor [OF this, of "FS c'" client d] Cons.prems
    show ?thesis by simp
  qed
  from Cons.IH [OF this] show ?case by simp
qed

lemma archive_each_propagates:
  assumes "fst (archive_channel_messages (FS c) client c db) = Inl e"
  shows "archive_each FS client (c # cs) db = (Inl e, db)"
proof -
  from assms archive_failure_rolls_back [OF assms]
  have "archive_channel_messages (FS c) client c db = (Inl e, db)"
    by (simp add: prod_eq_iff)
  then show ?thesis by simp
qed

lemma archive_each_append:
  "archive_each FS client (xs @ ys) db =
     (case archive_each FS client xs db of
        (Inl e, d) \<Rightarrow> (Inl e, d)
      | (Inr u, d) \<Rightarrow> archive_each FS client ys d)"
  by (induction xs arbitrary: db) (auto split: prod.splits sum.splits)

lemma first_new_shift:
  assumes "m ''ts'' = Some ts" and "ids' = insert ts ids"
  shows "{j. Suc j \<in> {i. i < length (m # ms)
              \<and> (\<exists>t. ((m # ms) ! i) ''ts'' = Some t \<and> t \<notin> ids
                    \<and> (\<forall>j<i. ((m # ms) ! j) ''ts'' \<noteq> Some t))}}
         = {i. i < length ms
              \<and> (\<exists>t. (ms ! i) ''ts'' = Some t \<and> t \<notin> ids' \<and> (\<forall>j<i. (ms ! j) ''ts'' \<noteq> Some t))}"
proof -
  have split: "(\<forall>j<Suc i. ((m # ms) ! j) ''ts'' \<noteq> Some t)
                 \<longleftrightarrow> ts \<noteq> t \<and> (\<forall>j<i. (ms ! j) ''ts'' \<noteq> Some t)" for i t
    using assms(1) by (auto simp: All_less_Suc2)
  show ?thesis
    unfolding assms(2) by (auto simp: split)
qed

lemma insert_messages_new_rows:
  "insert_messages F k cid ms rows = Inr rows' \<Longrightarrow>
     \<exists>new. rows' = rows @ new
       \<and> list_all2
           (\<lambda>m r. m ''ts'' = Some (message_id r) \<and> msg_channel_id r = cid
                 \<and> timestamp r = message_id r
                 \<and> user r = (case m ''user'' of None \<Rightarrow> ''N/A'' | Some u \<Rightarrow> u)
                 \<and> msg_text r = (case m ''text'' of None \<Rightarrow> [] | Some t \<Rightarrow> t))
           (nths ms {i. i < length ms
                      \<and> (\<exists>t. (ms ! i) ''ts'' = Some t \<and> t \<notin> message_id ` set rows
                            \<and> (\<forall>j<i. (ms ! j) ''ts'' \<noteq> Some t))})
           new"
proof (induction ms arbitrary: k rows)
  case Nil
  then show ?case by simp
next
  case (Cons m ms)
  let ?R = "\<lambda>m r. m ''ts'' = Some (message_id r) \<and> msg_channel_id r = cid
                 \<and> timestamp r = message_id r
                 \<and> user r = (case m ''user'' of None \<Rightarrow> ''N/A'' | Some u \<Rightarrow> u)
                 \<and> msg_text r = (case m ''text'' of None \<Rightarrow> [] | Some t \<Rightarrow> t)"
  let ?S = "\<lambda>ms ids. {i. i < length ms
                      \<and> (\<exists>t. (ms ! i) ''ts'' = Some t \<and> t \<notin> ids
                            \<and> (\<forall>j<i. (ms ! j) ''ts'' \<noteq> Some t))}"
  let ?row = "\<lambda>ts. message_to_row cid ts m"
  from Cons.prems obtain ts where ts: "m ''ts'' = Some ts"
    and rec: "insert_messages F (Suc k) cid ms (insert_or_ignore (?row ts) rows) = Inr rows'"
    by (auto split: option.splits if_splits)
  from Cons.IH [OF rec] obtain new1 where
    rows': "rows' = insert_or_ignore (?row ts) rows @ new1"
    and rel: "list_all2 ?R (nths ms (?S ms (message_id ` set (insert_or_ignore (?row ts) rows)))) new1"
    by blast
  have ids: "message_id ` set (insert_or_ignore (?row ts) rows) = insert ts (message_id ` set rows)"
    by (simp add: insert_or_ignore_ids message_to_row_def)
  define S0 where "S0 = ?S (m # ms) (message_id ` set rows)"
  define S1 where "S1 = ?S ms (message_id ` set (insert_or_ignore (?row ts) rows))"
  from first_new_shift
    [where m = m and ts = ts and ids = "message_id ` set rows" and ms = ms
       and ids' = "message_id ` set (insert_or_ignore (?row ts) rows)", OF ts ids]
  have shift: "{j. Suc j \<in> S0} = S1"
    unfolding S0_def S1_def .
  have zero: "0 \<in> S0 \<longleftrightarrow> ts \<notin> message_id ` set rows"
    unfolding S0_def using ts by simp
  have page: "nths (m # ms) S0 = (if ts \<notin> message_id ` set rows then [m] else []) @ nths ms S1"
    unfolding nths_Cons shift zero ..
  from rel have rel1: "list_all2 ?R (nths ms S1) new1"
    unfolding S1_def .
  have Rm: "?R m (?row ts)"
    using ts by (simp add: message_to_row_def)
  have "\<exists>new. rows' = rows @ new \<and> list_all2 ?R (nths (m # ms) S0) new"
  proof (cases "ts \<in> message_id ` set rows")
    case True
    then have "insert_or_ignore (?row ts) rows = rows"
      by (simp add: insert_or_ignore_def message_to_row_def)
    with rows' have "rows' = rows @ new1" by simp
    moreover from True rel1 have "list_all2 ?R (nths (m # ms) S0) new1"
      unfolding page by simp
    ultimately show ?thesis by blast
  next
    case False
    then have "insert_or_ignore (?row ts) rows = rows @ [?row ts]"
      by (simp add: insert_or_ignore_def message_to_row_def)
    with rows' have "rows' = rows @ (?row ts # new1)" by simp
    moreover from False rel1 Rm have "list_all2 ?R (nths (m # ms) S0) (?row ts # new1)"
      unfolding page by simp
    ultimately show ?thesis by blast
  qed
  then show ?case unfolding S0_def .
qed

lemma update_cursor_names:
  "map channel_id (update_cursor cid ts rows) = map channel_id rows"
  "map channel_name (update_cursor cid ts rows) = map channel_name rows"
  by (induction rows) (auto simp: update_cursor_def)

lemma archive_run_rows:
  assumes "conversations_history client cid (oldest (last_timestamp db cid)) 50 = Inr resp"
    and "archive_channel_messages F client cid db = (Inr (), db')"
  shows "\<exists>new. messages db' = messages db @ new
           \<and> list_all2
               (\<lambda>m r. m ''ts'' = Some (message_id r) \<and> msg_channel_id r = cid
                   \<and> timestamp r = message_id r
                   \<and> user r = (case m ''user'' of None \<Rightarrow> ''N/A'' | Some u \<Rightarrow> u)
                   \<and> msg_text r = (case m ''text'' of None \<Rightarrow> [] | Some t \<Rightarrow> t))
               (nths (resp_messages resp)
                  {i. i < length (resp_messages resp)
                    \<and> (\<exists>t. (resp_messages resp ! i) ''ts'' = Some t
                          \<and> t \<notin> message_id ` set (messages db)
                          \<and> (\<forall>j<i. (resp_messages resp ! j) ''ts'' \<noteq> Some t))})
               new"
    and "\<forall>c. c \<noteq> cid \<longrightarrow> fetchone_cursor db' c = fetchone_cursor db c"
    and "map channel_id (channels db') = map channel_id (channels db)"
    and "map channel_name (channels db') = map channel_name (channels db)"
proof -
  from assms(2) have body: "archive_body F client cid db = Inr db'"
    by (auto simp: archive_channel_messages_def with_connection_def split: sum.splits)
  from archive_body_Inr [OF assms(1) body] obtain rows chans where
    ins: "insert_messages F 1 cid (resp_messages resp) (messages db) = Inr rows"
    and upd: "update_last_archived F (Suc (length (resp_messages resp))) cid (resp_messages resp)
                (channels db) = Inr chans"
    and db': "db' = \<lparr>channels = chans, messages = rows\<rparr>"
    by blast
  from insert_messages_new_rows [OF ins] db'
  show "\<exists>new. messages db' = messages db @ new
           \<and> list_all2
               (\<lambda>m r. m ''ts'' = Some (message_id r) \<and> msg_channel_id r = cid
                   \<and> timestamp r = message_id r
                   \<and> user r = (case m ''user'' of None \<Rightarrow> ''N/A'' | Some u \<Rightarrow> u)
                   \<and> msg_text r = (case m ''text'' of None \<Rightarrow> [] | Some t \<Rightarrow> t))
               (nths (resp_messages resp)
                  {i. i < length (resp_messages resp)
                    \<and> (\<exists>t. (resp_messages resp ! i) ''ts'' = Some t
                          \<and> t \<notin> message_id ` set (messages db)
                          \<and> (\<forall>j<i. (resp_messages resp ! j) ''ts'' \<noteq> Some t))})
               new"
    by simp
  from assms(2) have "snd (archive_channel_messages F client cid db) = db'"
    by simp
  with archive_other_channel_cursor [of _ cid F client db]
  show "\<forall>c. c \<noteq> cid \<longrightarrow> fetchone_cursor db' c = fetchone_cursor db c"
    by auto
  from update_last_archived_Inr [OF upd]
  have "chans = channels db \<or> (\<exists>ts. chans = update_cursor cid ts (channels db))"
    by blast
  with db' show "map channel_id (channels db') = map channel_id (channels db)"
    and "map channel_name (channels db') = map channel_name (channels db)"
    by (auto simp: update_cursor_names)
qed

section \<open>Claims\<close>

subsection \<open>Atomic apply of a page\<close>

text \<open>
  C1, as the code has it. For every channel, registered or not, and every page that the
  one call to \<open>conversations_history\<close> returns, a run of \<open>archive_channel_messages\<close> has
  one of two outcomes. Either it returns normally; then the table \<open>messages\<close> is the old
  table followed, in page order, by one row for each message of the page whose \<open>ts\<close> was
  not yet the \<open>message_id\<close> of a stored row and does not occur earlier in the page, the
  row carrying the channel id, the \<open>ts\<close> as \<open>message_id\<close> and \<open>timestamp\<close>, the user (or
  \<open>N/A\<close>) and the text (or the empty string) of the message; every other message of the
  page is ignored as a duplicate of its \<open>message_id\<close>, also when the stored row belongs to
  another channel; every \<open>ts\<close> of the page is then a stored \<open>message_id\<close>; the cursor of
  the channel, if it has a row, is the \<open>ts\<close> of \<open>messages[0]\<close> (unchanged for an empty
  page), and the ids, names and cursors of the other channels are as before. Or an
  exception leaves the method and the database is the one before the run: no message
  of the page is stored and the cursor is unchanged. The second outcome occurs exactly
  when one of the executed statements faults (the SELECT, an INSERT, the UPDATE of a
  non-empty page, the commit) or a message has no \<open>ts\<close>.
\<close>

theorem archive_channel_messages_atomic:
  assumes "conversations_history client cid (oldest (last_timestamp db cid)) 50 = Inr resp"
  shows "((\<exists>db' new. archive_channel_messages F client cid db = (Inr (), db')
            \<and> messages db' = messages db @ new
            \<and> list_all2
                (\<lambda>m r. m ''ts'' = Some (message_id r) \<and> msg_channel_id r = cid
                    \<and> timestamp r = message_id r
                    \<and> user r = (case m ''user'' of None \<Rightarrow> ''N/A'' | Some u \<Rightarrow> u)
                    \<and> msg_text r = (case m ''text'' of None \<Rightarrow> [] | Some t \<Rightarrow> t))
                (nths (resp_messages resp)
                   {i. i < length (resp_messages resp)
                     \<and> (\<exists>t. (resp_messages resp ! i) ''ts'' = Some t
                           \<and> t \<notin> message_id ` set (messages db)
                           \<and> (\<forall>j<i. (resp_messages resp ! j) ''ts'' \<noteq> Some t))})
                new
            \<and> (\<forall>m\<in>set (resp_messages resp).
                  \<exists>ts. m ''ts'' = Some ts \<and> ts \<in> message_id ` set (messages db'))
            \<and> fetchone_cursor db' cid =
                (case resp_messages resp of
                   [] \<Rightarrow> fetchone_cursor db cid
                 | m # ms \<Rightarrow> map_option (\<lambda>old. m ''ts'') (fetchone_cursor db cid))
            \<and> (\<forall>c. c \<noteq> cid \<longrightarrow> fetchone_cursor db' c = fetchone_cursor db c)
            \<and> map channel_id (channels db') = map channel_id (channels db)
            \<and> map channel_name (channels db') = map channel_name (channels db))
         \<or> (\<exists>e. archive_channel_messages F client cid db = (Inl e, db)))
       \<and> ((\<exists>e. archive_channel_messages F client cid db = (Inl e, db)) \<longleftrightarrow>
             F 0
           \<or> (\<exists>i<length (resp_messages resp). F (1 + i))
           \<or> (\<exists>m\<in>set (resp_messages resp). m ''ts'' = None)
           \<or> (resp_messages resp \<noteq> [] \<and> F (Suc (length (resp_messages resp))))
           \<or> F (length (resp_messages resp) + 2))"
proof (rule conjI)
  from conjunct1 [OF archive_run_cases [OF assms, of F]]
  consider (ok) db' where "archive_channel_messages F client cid db = (Inr (), db')"
      "\<forall>m\<in>set (resp_messages resp).
         \<exists>ts. m ''ts'' = Some ts \<and> ts \<in> message_id ` set (messages db')"
      "fetchone_cursor db' cid =
         (case resp_messages resp of
            [] \<Rightarrow> fetchone_cursor db cid
          | m # ms \<Rightarrow> map_option (\<lambda>old. m ''ts'') (fetchone_cursor db cid))"
    | (fail) e where "archive_channel_messages F client cid db = (Inl e, db)"
    by blast
  then show "(\<exists>db' new. archive_channel_messages F client cid db = (Inr (), db')
            \<and> messages db' = messages db @ new
            \<and> list_all2
                (\<lambda>m r. m ''ts'' = Some (message_id r) \<and> msg_channel_id r = cid
                    \<and> timestamp r = message_id r
                    \<and> user r = (case m ''user'' of None \<Rightarrow> ''N/A'' | Some u \<Rightarrow> u)
                    \<and> msg_text r = (case m ''text'' of None \<Rightarrow> [] | Some t \<Rightarrow> t))
                (nths (resp_messages resp)
                   {i. i < length (resp_messages resp)
                     \<and> (\<exists>t. (resp_messages resp ! i) ''ts'' = Some t
                           \<and> t \<notin> message_id ` set (messages db)
                           \<and> (\<forall>j<i. (resp_messages resp ! j) ''ts'' \<noteq> Some t))})
                new
            \<and> (\<forall>m\<in>set (resp_messages resp).
                  \<exists>ts. m ''ts'' = Some ts \<and> ts \<in> message_id ` set (messages db'))
            \<and> fetchone_cursor db' cid =
                (case resp_messages resp of
                   [] \<Rightarrow> fetchone_cursor db cid
                 | m # ms \<Rightarrow> map_option (\<lambda>old. m ''ts'') (fetchone_cursor db cid))
            \<and> (\<forall>c. c \<noteq> cid \<longrightarrow> fetchone_cursor db' c = fetchone_cursor db c)
            \<and> map channel_id (channels db') = map channel_id (channels db)
            \<and> map channel_name (channels db') = map channel_name (channels db))
         \<or> (\<exists>e. archive_channel_messages F client cid db = (Inl e, db))"
  proof cases
    case ok
    from archive_run_rows [OF assms ok(1)] ok show ?thesis
      by blast
  next
    case fail
    then show ?thesis by blast
  qed
next
  show "(\<exists>e. archive_channel_messages F client cid db = (Inl e, db)) \<longleftrightarrow>
             F 0
           \<or> (\<exists>i<length (resp_messages resp). F (1 + i))
           \<or> (\<exists>m\<in>set (resp_messages resp). m ''ts'' = None)
           \<or> (resp_messages resp \<noteq> [] \<and> F (Suc (length (resp_messages resp))))
           \<or> F (length (resp_messages resp) + 2)"
    by (rule conjunct2 [OF archive_run_cases [OF assms]])
qed

text \<open>
  On the registered channel \<open>C1\<close> a fault in the second INSERT rolls the run back; with no
  fault the three messages are stored with their users and texts and the cursor is
  set.
\<close>

theorem archive_channel_messages_atomic_witness:
  "conversations_history paged_client ''C1''
     (oldest (last_timestamp (registered paged_client [''C1'']) ''C1'')) 50
     = Inr \<lparr>resp_messages = page1, has_more = True\<rparr>
   \<and> (\<exists>e. archive_channel_messages (fault_at 2) paged_client ''C1''
            (registered paged_client [''C1'']) = (Inl e, registered paged_client [''C1'']))
   \<and> archive_channel_messages no_faults paged_client ''C1'' (registered paged_client [''C1''])
     = (Inr (),
        \<lparr>channels = [\<lparr>channel_id = ''C1'', channel_name = ''general'',
                       last_archived_timestamp = Some ''098''\<rparr>],
         messages =
           [\<lparr>message_id = ''098'', msg_channel_id = ''C1'', timestamp = ''098'',
              user = ''U1'', msg_text = ''one''\<rparr>,
            \<lparr>message_id = ''099'', msg_channel_id = ''C1'', timestamp = ''099'',
              user = ''U2'', msg_text = ''two''\<rparr>,
            \<lparr>message_id = ''100'', msg_channel_id = ''C1'', timestamp = ''100'',
              user = ''U1'', msg_text = ''three''\<rparr>]\<rparr>)"
proof -
  let ?db = "registered paged_client [''C1'']"
  let ?resp = "\<lparr>resp_messages = page1, has_more = True\<rparr>"
  have h: "conversations_history paged_client ''C1'' (oldest (last_timestamp ?db ''C1'')) 50
             = Inr ?resp"
    by (simp add: store_defs scenario_defs)
  have f: "\<exists>i<length (resp_messages ?resp). fault_at 2 (1 + i)"
    by (intro exI [of _ 1]) (simp add: fault_at_def page1_def)
  from archive_channel_messages_atomic [OF h, of "fault_at 2"] f
  have rolled_back: "\<exists>e. archive_channel_messages (fault_at 2) paged_client ''C1'' ?db = (Inl e, ?db)"
    by blast
  have applied: "archive_channel_messages no_faults paged_client ''C1'' ?db
     = (Inr (),
        \<lparr>channels = [\<lparr>channel_id = ''C1'', channel_name = ''general'',
                       last_archived_timestamp = Some ''098''\<rparr>],
         messages =
           [\<lparr>message_id = ''098'', msg_channel_id = ''C1'', timestamp = ''098'',
              user = ''U1'', msg_text = ''one''\<rparr>,
            \<lparr>message_id = ''099'', msg_channel_id = ''C1'', timestamp = ''099'',
              user = ''U2'', msg_text = ''two''\<rparr>,
            \<lparr>message_id = ''100'', msg_channel_id = ''C1'', timestamp = ''100'',
              user = ''U1'', msg_text = ''three''\<rparr>]\<rparr>)"
    by (simp add: store_defs scenario_defs)
  from h rolled_back applied show ?thesis by blast
qed

text \<open>
  The claim as stated fails: channel \<open>A\<close> has been archived and channel \<open>B\<close> holds one
  message with the same \<open>ts\<close>. The run on \<open>B\<close> returns normally and advances the cursor
  of \<open>B\<close> from NULL to 100, yet the message of its page is not stored: the only row is
  that of \<open>A\<close>, and the query for \<open>B\<close> returns nothing.
\<close>

theorem page_not_stored_counterexample:
  "conversations_history same_ts_client ''B'' ''0'' 50
     = Inr \<lparr>resp_messages = [slack_message ''100'' ''U1'' ''B''], has_more = False\<rparr>
   \<and> fetchone_cursor
       (snd (archive_channel_messages no_faults same_ts_client ''A''
               (registered same_ts_client [''A'', ''B''])))
       ''B'' = Some None
   \<and> fst (archive_channel_messages no_faults same_ts_client ''B''
            (snd (archive_channel_messages no_faults same_ts_client ''A''
                    (registered same_ts_client [''A'', ''B''])))) = Inr ()
   \<and> fetchone_cursor
       (snd (archive_channel_messages no_faults same_ts_client ''B''
               (snd (archive_channel_messages no_faults same_ts_client ''A''
                       (registered same_ts_client [''A'', ''B''])))))
       ''B'' = Some (Some ''100'')
   \<and> map msg_channel_id
       (messages (snd (archive_channel_messages no_faults same_ts_client ''B''
                         (snd (archive_channel_messages no_faults same_ts_client ''A''
                                 (registered same_ts_client [''A'', ''B'']))))))
       = [''A'']
   \<and> get_channel_messages
       (snd (archive_channel_messages no_faults same_ts_client ''B''
               (snd (archive_channel_messages no_faults same_ts_client ''A''
                       (registered same_ts_client [''A'', ''B''])))))
       ''B'' 100 0 = Inr []"
  by (simp add: store_defs scenario_defs)

subsection \<open>Registering a channel again\<close>

text \<open>
  C2, as the code has it. For every registered channel, whatever its cursor \<open>c\<close>, a
  registration of the same channel id that succeeds (the client returns the name, no
  storage fault) replaces the row: the channel then has the new display name and the
  cursor NULL, the rows of the other channels and all messages are as before.
  \<open>INSERT OR REPLACE\<close> writes \<open>None\<close> into \<open>last_archived_timestamp\<close>.
\<close>

theorem add_channel_to_archive_resets_cursor:
  assumes "fetchone_cursor db cid = Some c"
    and "conversations_info client cid = Inr name"
    and "\<not> F 0" and "\<not> F 1"
  shows "fst (add_channel_to_archive F client cid db) = Inr ()
       \<and> find (\<lambda>r. channel_id r = cid) (channels (snd (add_channel_to_archive F client cid db)))
           = Some \<lparr>channel_id = cid, channel_name = name, last_archived_timestamp = None\<rparr>
       \<and> fetchone_cursor (snd (add_channel_to_archive F client cid db)) cid = Some None
       \<and> filter (\<lambda>r. channel_id r \<noteq> cid) (channels (snd (add_channel_to_archive F client cid db)))
           = filter (\<lambda>r. channel_id r \<noteq> cid) (channels db)
       \<and> messages (snd (add_channel_to_archive F client cid db)) = messages db"
proof -
  let ?row = "\<lparr>channel_id = cid, channel_name = name, last_archived_timestamp = None\<rparr>"
  have run: "add_channel_to_archive F client cid db =
          (Inr (), db\<lparr>channels := insert_or_replace ?row (channels db)\<rparr>)"
    using assms(2-4) by (simp add: add_channel_to_archive_def with_connection_def)
  have found: "find (\<lambda>r. channel_id r = cid) (insert_or_replace ?row (channels db)) = Some ?row"
    using find_insert_or_replace [of ?row "channels db"] by simp
  have others: "filter (\<lambda>r. channel_id r \<noteq> cid) (insert_or_replace ?row (channels db))
          = filter (\<lambda>r. channel_id r \<noteq> cid) (channels db)"
    by (simp add: insert_or_replace_def)
  from run found others show ?thesis
    by (simp add: fetchone_cursor_def)
qed

theorem add_channel_to_archive_resets_cursor_witness:
  "fetchone_cursor
     (snd (archive_channel_messages no_faults newest_first_client ''C1''
             (registered newest_first_client [''C1'']))) ''C1'' = Some (Some ''100'')
   \<and> fst (add_channel_to_archive no_faults newest_first_client ''C1''
       (snd (archive_channel_messages no_faults newest_first_client ''C1''
               (registered newest_first_client [''C1''])))) = Inr ()
   \<and> fetchone_cursor
       (snd (add_channel_to_archive no_faults newest_first_client ''C1''
          (snd (archive_channel_messages no_faults newest_first_client ''C1''
                  (registered newest_first_client [''C1''])))))
       ''C1'' = Some None"
proof -
  let ?db = "snd (archive_channel_messages no_faults newest_first_client ''C1''
                    (registered newest_first_client [''C1'']))"
  have c: "fetchone_cursor ?db ''C1'' = Some (Some ''100'')"
    by (simp add: store_defs scenario_defs)
  have i: "conversations_info newest_first_client ''C1'' = Inr ''general''"
    by (simp add: newest_first_client_def)
  have f: "\<not> no_faults 0" "\<not> no_faults 1"
    by (simp_all add: no_faults_def)
  from add_channel_to_archive_resets_cursor [OF c i f] c show ?thesis by blast
qed

text \<open>
  The claim as stated fails: the channel \<open>C1\<close> has the cursor \<open>098\<close> after a run, and NULL
  after it is registered again.
\<close>

theorem reregistration_counterexample:
  "fetchone_cursor
     (snd (archive_channel_messages no_faults paged_client ''C1'' (registered paged_client [''C1''])))
     ''C1'' = Some (Some ''098'')
   \<and> fetchone_cursor
       (snd (add_channel_to_archive no_faults paged_client ''C1''
          (snd (archive_channel_messages no_faults paged_client ''C1''
                  (registered paged_client [''C1''])))))
       ''C1'' = Some None"
  by (simp add: store_defs scenario_defs)

subsection \<open>The deduplication key\<close>

text \<open>
  C3, as the code has it. The primary key of \<open>messages\<close>, and so the deduplication key,
  is \<open>message_id\<close> alone. In every reachable store there is at most one row for each
  \<open>message_id\<close>, hence at most one for each pair of \<open>channel_id\<close> and \<open>message_id\<close>;
  inserting a row whose \<open>message_id\<close> is present is a no-op whatever its channel, so of
  two messages with the same \<open>message_id\<close> in different channels only the first is
  stored; a row whose \<open>message_id\<close> is new is appended.
\<close>

theorem message_id_is_the_key:
  assumes "reachable db"
  shows "distinct (map message_id (messages db))
       \<and> distinct (map (\<lambda>r. (msg_channel_id r, message_id r)) (messages db))
       \<and> (\<forall>r. message_id r \<in> message_id ` set (messages db) \<longrightarrow>
              insert_or_ignore r (messages db) = messages db)
       \<and> (\<forall>r. message_id r \<notin> message_id ` set (messages db) \<longrightarrow>
              insert_or_ignore r (messages db) = messages db @ [r])"
proof -
  from reachable_key [OF assms] have key: "distinct (map message_id (messages db))"
    by simp
  then have "distinct (map (\<lambda>r. (msg_channel_id r, message_id r)) (messages db))"
    by (rule distinct_pairs)
  with key show ?thesis
    by (simp add: insert_or_ignore_def)
qed

theorem message_id_is_the_key_witness:
  "distinct (map message_id
     (messages (snd (archive_channel_messages no_faults same_ts_client ''A''
                       (registered same_ts_client [''A''])))))
   \<and> insert_or_ignore (message_to_row ''B'' ''100'' (slack_message ''100'' ''U1'' ''B''))
       (messages (snd (archive_channel_messages no_faults same_ts_client ''A''
                         (registered same_ts_client [''A'']))))
     = messages (snd (archive_channel_messages no_faults same_ts_client ''A''
                        (registered same_ts_client [''A''])))"
proof -
  let ?db = "snd (archive_channel_messages no_faults same_ts_client ''A''
                    (registered same_ts_client [''A'']))"
  let ?r = "message_to_row ''B'' ''100'' (slack_message ''100'' ''U1'' ''B'')"
  have r: "reachable ?db"
    by (rule reachable_after_first_run)
  have "message_id ?r \<in> message_id ` set (messages ?db)"
    by (simp add: store_defs scenario_defs)
  with message_id_is_the_key [OF r] show ?thesis by blast
qed

text \<open>
  The claim as stated fails: the channels \<open>A\<close> and \<open>B\<close> each hold a message with the
  \<open>ts\<close> 100. Both runs return normally, and the store holds the row of \<open>A\<close> only.
\<close>

theorem same_ts_two_channels_counterexample:
  "fst (archive_channel_messages no_faults same_ts_client ''B''
          (snd (archive_channel_messages no_faults same_ts_client ''A''
                  (registered same_ts_client [''A'', ''B''])))) = Inr ()
   \<and> messages (snd (archive_channel_messages no_faults same_ts_client ''B''
          (snd (archive_channel_messages no_faults same_ts_client ''A''
                  (registered same_ts_client [''A'', ''B''])))))
     = [\<lparr>message_id = ''100'', msg_channel_id = ''A'', timestamp = ''100'',
         user = ''U1'', msg_text = ''A''\<rparr>]"
  by (simp add: store_defs scenario_defs)

subsection \<open>One page for each run\<close>

text \<open>
  C4, as the code has it. A run of \<open>archive_channel_messages\<close> makes one call to
  \<open>conversations_history\<close> (lower bound the stored cursor or \<open>'0'\<close>, limit 50) and applies
  that one page: there is no loop, \<open>has_more\<close> is not read and no page budget exists. So
  two clients whose answers to that one request carry the same messages give the same
  run, whatever they say about the end of the data and whatever they would answer to
  another request, and a run adds at most the messages of that page. In the scenario
  (first page of three messages ending at 100 with more to come, second page at 150)
  one run returns normally with three stored messages and the cursor at the \<open>ts\<close> of the
  first message of the first page; the message at 150 is not stored.
\<close>

theorem archive_channel_messages_single_page:
  "(\<forall>F (c1::slack_client) (c2::slack_client) cid (db::database)
       (r1::history_response) (r2::history_response).
      conversations_history c1 cid (oldest (last_timestamp db cid)) 50 = Inr r1
      \<and> conversations_history c2 cid (oldest (last_timestamp db cid)) 50 = Inr r2
      \<and> resp_messages r1 = resp_messages r2
      \<longrightarrow> archive_channel_messages F c1 cid db = archive_channel_messages F c2 cid db
        \<and> length (messages (snd (archive_channel_messages F c1 cid db)))
            \<le> length (messages db) + length (resp_messages r1))
   \<and> fst (archive_channel_messages no_faults paged_client ''C1'' (registered paged_client [''C1'']))
       = Inr ()
   \<and> map message_id
       (messages (snd (archive_channel_messages no_faults paged_client ''C1''
                         (registered paged_client [''C1'']))))
       = [''098'', ''099'', ''100'']
   \<and> fetchone_cursor
       (snd (archive_channel_messages no_faults paged_client ''C1'' (registered paged_client [''C1''])))
       ''C1'' = Some (Some ''098'')"
proof (intro conjI allI impI)
  fix F and c1 c2 :: slack_client and cid and db :: database and r1 r2 :: history_response
  assume h: "conversations_history c1 cid (oldest (last_timestamp db cid)) 50 = Inr r1
      \<and> conversations_history c2 cid (oldest (last_timestamp db cid)) 50 = Inr r2
      \<and> resp_messages r1 = resp_messages r2"
  then have "archive_body F c1 cid db = archive_body F c2 cid db"
    by (simp add: archive_body_def)
  then show "archive_channel_messages F c1 cid db = archive_channel_messages F c2 cid db"
    by (simp add: archive_channel_messages_def with_connection_def)
  from h have r1: "conversations_history c1 cid (oldest (last_timestamp db cid)) 50 = Inr r1"
    by simp
  show "length (messages (snd (archive_channel_messages F c1 cid db)))
          \<le> length (messages db) + length (resp_messages r1)"
  proof (cases "archive_body F c1 cid db")
    case (Inl e)
    then show ?thesis
      by (simp add: archive_channel_messages_def with_connection_def)
  next
    case (Inr db')
    from archive_body_Inr [OF r1 Inr] obtain rows chans where
      "insert_messages F 1 cid (resp_messages r1) (messages db) = Inr rows"
      "db' = \<lparr>channels = chans, messages = rows\<rparr>" by blast
    with insert_messages_length [of F 1 cid "resp_messages r1" "messages db" rows] Inr
    show ?thesis
      by (simp add: archive_channel_messages_def with_connection_def)
  qed
qed (simp_all add: store_defs scenario_defs)

theorem archive_channel_messages_single_page_witness:
  "archive_channel_messages no_faults paged_client ''C1'' (registered paged_client [''C1''])
     = archive_channel_messages no_faults
         (paged_client\<lparr>conversations_history := (\<lambda>c since n.
            Inr \<lparr>resp_messages = page1, has_more = False\<rparr>)\<rparr>)
         ''C1'' (registered paged_client [''C1''])
   \<and> length (messages (snd (archive_channel_messages no_faults paged_client ''C1''
                             (registered paged_client [''C1'']))))
       \<le> length (messages (registered paged_client [''C1''])) + length page1"
proof -
  let ?db = "registered paged_client [''C1'']"
  let ?c2 = "paged_client\<lparr>conversations_history := (\<lambda>c since n.
            Inr \<lparr>resp_messages = page1, has_more = False\<rparr>)\<rparr>"
  let ?r1 = "\<lparr>resp_messages = page1, has_more = True\<rparr>"
  let ?r2 = "\<lparr>resp_messages = page1, has_more = False\<rparr>"
  have h1: "conversations_history paged_client ''C1'' (oldest (last_timestamp ?db ''C1'')) 50
             = Inr ?r1"
    by (simp add: store_defs scenario_defs)
  have h2: "conversations_history ?c2 ''C1'' (oldest (last_timestamp ?db ''C1'')) 50 = Inr ?r2"
    by simp
  note general = conjunct1 [OF archive_channel_messages_single_page]
  note step = general [THEN spec, THEN spec, THEN spec, THEN spec, THEN spec, THEN spec,
      THEN spec, THEN mp]
  have "archive_channel_messages no_faults paged_client ''C1'' ?db
          = archive_channel_messages no_faults ?c2 ''C1'' ?db
        \<and> length (messages (snd (archive_channel_messages no_faults paged_client ''C1'' ?db)))
            \<le> length (messages ?db) + length (resp_messages ?r1)"
  proof (rule step)
    show "conversations_history paged_client ''C1'' (oldest (last_timestamp ?db ''C1'')) 50 = Inr ?r1
        \<and> conversations_history ?c2 ''C1'' (oldest (last_timestamp ?db ''C1'')) 50 = Inr ?r2
        \<and> resp_messages ?r1 = resp_messages ?r2"
      using h1 h2 by simp
  qed
  then have same: "archive_channel_messages no_faults paged_client ''C1'' ?db
          = archive_channel_messages no_faults ?c2 ''C1'' ?db"
    and "length (messages (snd (archive_channel_messages no_faults paged_client ''C1'' ?db)))
            \<le> length (messages ?db) + length (resp_messages ?r1)"
    by (rule conjunct1, rule conjunct2)
  from this(2)
  have "length (messages (snd (archive_channel_messages no_faults paged_client ''C1'' ?db)))
            \<le> length (messages ?db) + length page1"
    by simp
  with same show ?thesis by (rule conjI)
qed

text \<open>
  The claim as stated fails in its own scenario: one run stores three messages, not
  four, and the cursor is not 150.
\<close>

theorem single_run_counterexample:
  "length (messages (snd (archive_channel_messages no_faults paged_client ''C1''
                            (registered paged_client [''C1''])))) = 3
   \<and> fetchone_cursor
       (snd (archive_channel_messages no_faults paged_client ''C1'' (registered paged_client [''C1''])))
       ''C1'' \<noteq> Some (Some ''150'')
   \<and> conversations_history paged_client ''C1'' ''0'' 50
       = Inr \<lparr>resp_messages = page1, has_more = True\<rparr>
   \<and> conversations_history paged_client ''C1'' ''100'' 50
       = Inr \<lparr>resp_messages = page2, has_more = False\<rparr>"
  by (simp add: store_defs scenario_defs)

subsection \<open>The cursor after a page\<close>

text \<open>
  C5, as the code has it. After a run of \<open>archive_channel_messages\<close> on a registered
  channel that returns normally, the cursor is the \<open>ts\<close> of the first message of the
  page, \<open>messages[0]\<close>, when the page is not empty; that is the greatest position of the
  page when the page is ordered newest first (descending), as Slack delivers it. When
  the page is empty the cursor is unchanged.
\<close>

theorem cursor_is_ts_of_first_message:
  assumes "conversations_history client cid (oldest (last_timestamp db cid)) 50 = Inr resp"
    and "archive_channel_messages F client cid db = (Inr (), db')"
    and "fetchone_cursor db cid = Some c"
  shows "(resp_messages resp = [] \<longrightarrow> fetchone_cursor db' cid = Some c)
       \<and> (\<forall>m ms. resp_messages resp = m # ms \<longrightarrow>
            (\<exists>ts. m ''ts'' = Some ts \<and> fetchone_cursor db' cid = Some (Some ts)
               \<and> (sorted (rev (List.map_filter (\<lambda>m. m ''ts'') (resp_messages resp))) \<longrightarrow>
                    (\<forall>m'\<in>set (resp_messages resp). \<forall>t. m' ''ts'' = Some t \<longrightarrow> t \<le> ts))))"
proof -
  from assms(2) have body: "archive_body F client cid db = Inr db'"
    by (auto simp: archive_channel_messages_def with_connection_def split: sum.splits)
  from archive_body_Inr [OF assms(1) body] obtain rows chans where
    upd: "update_last_archived F (Suc (length (resp_messages resp))) cid (resp_messages resp)
            (channels db) = Inr chans"
    and db': "db' = \<lparr>channels = chans, messages = rows\<rparr>"
    by blast
  from fetchone_cursor_update_last_archived [OF upd, of rows cid]
  have cur: "fetchone_cursor db' cid =
               (case resp_messages resp of
                  [] \<Rightarrow> fetchone_cursor db cid
                | m # ms \<Rightarrow> map_option (\<lambda>old. m ''ts'') (fetchone_cursor db cid))"
    unfolding db' by simp
  show ?thesis
  proof (intro conjI allI impI)
    assume "resp_messages resp = []"
    with cur assms(3) show "fetchone_cursor db' cid = Some c" by simp
  next
    fix m ms
    assume page: "resp_messages resp = m # ms"
    from upd [unfolded page] obtain ts where ts: "m ''ts'' = Some ts"
      by (auto simp: update_last_archived_def split: option.splits)
    show "\<exists>ts. m ''ts'' = Some ts \<and> fetchone_cursor db' cid = Some (Some ts)
               \<and> (sorted (rev (List.map_filter (\<lambda>m. m ''ts'') (resp_messages resp))) \<longrightarrow>
                    (\<forall>m'\<in>set (resp_messages resp). \<forall>t. m' ''ts'' = Some t \<longrightarrow> t \<le> ts))"
    proof (intro exI conjI impI ballI allI)
      show "m ''ts'' = Some ts" by (rule ts)
      show "fetchone_cursor db' cid = Some (Some ts)"
        unfolding cur page using ts assms(3) by simp
    next
      fix m' t
      assume desc: "sorted (rev (List.map_filter (\<lambda>m. m ''ts'') (resp_messages resp)))"
        and m': "m' \<in> set (resp_messages resp)" and t: "m' ''ts'' = Some t"
      have "List.map_filter (\<lambda>m. m ''ts'') (resp_messages resp)
              = ts # List.map_filter (\<lambda>m. m ''ts'') ms"
        unfolding page using ts by (simp add: List.map_filter_def)
      with desc have "sorted (rev (ts # List.map_filter (\<lambda>m. m ''ts'') ms))"
        by simp
      then have le: "\<forall>x\<in>set (ts # List.map_filter (\<lambda>m. m ''ts'') ms). x \<le> ts"
        by (rule sorted_rev_Cons_max)
      have "t \<in> set (List.map_filter (\<lambda>m. m ''ts'') (resp_messages resp))"
        unfolding set_map_filter using m' t by blast
      then have "t \<in> set (ts # List.map_filter (\<lambda>m. m ''ts'') ms)"
        using \<open>List.map_filter (\<lambda>m. m ''ts'') (resp_messages resp)
              = ts # List.map_filter (\<lambda>m. m ''ts'') ms\<close> by simp
      with le show "t \<le> ts" by blast
    qed
  qed
qed

theorem cursor_is_ts_of_first_message_witness:
  "fetchone_cursor (registered newest_first_client [''C1'']) ''C1'' = Some None
   \<and> fetchone_cursor
       (snd (archive_channel_messages no_faults newest_first_client ''C1''
               (registered newest_first_client [''C1''])))
       ''C1'' = Some (Some ''100'')
   \<and> ''098'' \<le> ''100'' \<and> ''099'' \<le> ''100''"
proof -
  let ?db = "registered newest_first_client [''C1'']"
  let ?m = "slack_message ''100'' ''U1'' ''three''"
  let ?ms = "[slack_message ''099'' ''U2'' ''two'', slack_message ''098'' ''U1'' ''one'']"
  let ?resp = "\<lparr>resp_messages = rev page1, has_more = False\<rparr>"
  have h: "conversations_history newest_first_client ''C1'' (oldest (last_timestamp ?db ''C1'')) 50
             = Inr ?resp"
    by (simp add: store_defs scenario_defs)
  have "fst (archive_channel_messages no_faults newest_first_client ''C1'' ?db) = Inr ()"
    by (simp add: store_defs scenario_defs)
  then have run: "archive_channel_messages no_faults newest_first_client ''C1'' ?db
                    = (Inr (), snd (archive_channel_messages no_faults newest_first_client ''C1'' ?db))"
    by (simp add: prod_eq_iff)
  have c: "fetchone_cursor ?db ''C1'' = Some None"
    by (simp add: store_defs scenario_defs)
  have page: "resp_messages ?resp = ?m # ?ms"
    by (simp add: page1_def)
  have first: "?m ''ts'' = Some ''100''"
    by (simp add: slack_message_def)
  have desc: "sorted (rev (List.map_filter (\<lambda>m. m ''ts'') (resp_messages ?resp)))"
    by (simp add: page1_def slack_message_def List.map_filter_def)
  from cursor_is_ts_of_first_message [OF h run c] page
  obtain ts where "?m ''ts'' = Some ts"
    and "fetchone_cursor (snd (archive_channel_messages no_faults newest_first_client ''C1'' ?db))
           ''C1'' = Some (Some ts)"
    and "sorted (rev (List.map_filter (\<lambda>m. m ''ts'') (resp_messages ?resp))) \<longrightarrow>
           (\<forall>m'\<in>set (resp_messages ?resp). \<forall>t. m' ''ts'' = Some t \<longrightarrow> t \<le> ts)"
    by blast
  with first desc c show ?thesis by simp
qed

text \<open>
  The claim as stated fails on a page in ascending order: the cursor after the run is
  the position of the first message, 098, and the last message of the page is at 100.
\<close>

theorem cursor_ascending_page_counterexample:
  "fetchone_cursor
     (snd (archive_channel_messages no_faults paged_client ''C1'' (registered paged_client [''C1''])))
     ''C1'' = Some (Some ''098'')
   \<and> hd page1 ''ts'' = Some ''098''
   \<and> last page1 ''ts'' = Some ''100''
   \<and> ''098'' < ''099'' \<and> ''099'' < ''100''"
  by (simp add: store_defs scenario_defs)

subsection \<open>Idempotence\<close>

text \<open>
  C6. After any first run of \<open>archive_channel_messages\<close> on a channel, a second run whose
  page respects the exclusive lower bound sent as \<open>oldest\<close> (the stored cursor, or \<open>'0'\<close>)
  and holds no message above it, and which meets no storage fault, returns normally and
  leaves the database as it was: no message is inserted and the cursor is unchanged.
\<close>

theorem archive_twice_idempotent:
  assumes "db1 = snd (archive_channel_messages F1 client1 cid db0)"
    and "conversations_history client2 cid (oldest (last_timestamp db1 cid)) 50 = Inr resp"
    and "\<forall>m\<in>set (resp_messages resp).
           \<exists>ts. m ''ts'' = Some ts \<and> oldest (last_timestamp db1 cid) < ts"
    and "\<forall>m\<in>set (resp_messages resp).
           \<forall>ts. m ''ts'' = Some ts \<longrightarrow> \<not> oldest (last_timestamp db1 cid) < ts"
    and "\<forall>k. \<not> F2 k"
  shows "archive_channel_messages F2 client2 cid db1 = (Inr (), db1)
       \<and> messages (snd (archive_channel_messages F2 client2 cid db1)) = messages db1
       \<and> fetchone_cursor (snd (archive_channel_messages F2 client2 cid db1)) cid
           = fetchone_cursor db1 cid"
proof -
  have "resp_messages resp = []"
  proof (cases "resp_messages resp")
    case Nil
    then show ?thesis .
  next
    case (Cons m ms)
    then have m: "m \<in> set (resp_messages resp)" by simp
    with assms(3) obtain ts where "m ''ts'' = Some ts" "oldest (last_timestamp db1 cid) < ts"
      by blast
    with assms(4) m show ?thesis by blast
  qed
  with assms(2,5) have "archive_body F2 client2 cid db1 = Inr db1"
    by (simp add: archive_body_def update_last_archived_def)
  then have "archive_channel_messages F2 client2 cid db1 = (Inr (), db1)"
    by (simp add: archive_channel_messages_def with_connection_def)
  then show ?thesis by simp
qed

text \<open>
  Two runs against an upstream that serves newest first: the first sets the cursor to
  \<open>100\<close>, the second receives the empty page and changes nothing.
\<close>

theorem archive_twice_idempotent_witness:
  "archive_channel_messages no_faults newest_first_client ''C1''
     (snd (archive_channel_messages no_faults newest_first_client ''C1''
             (registered newest_first_client [''C1''])))
   = (Inr (), snd (archive_channel_messages no_faults newest_first_client ''C1''
                     (registered newest_first_client [''C1''])))
   \<and> fetchone_cursor (snd (archive_channel_messages no_faults newest_first_client ''C1''
                             (registered newest_first_client [''C1'']))) ''C1''
       = Some (Some ''100'')"
proof -
  let ?db0 = "registered newest_first_client [''C1'']"
  let ?db1 = "snd (archive_channel_messages no_faults newest_first_client ''C1'' ?db0)"
  let ?resp = "\<lparr>resp_messages = [], has_more = False\<rparr>"
  have c: "fetchone_cursor ?db1 ''C1'' = Some (Some ''100'')"
    by (simp add: store_defs scenario_defs)
  then have lt: "oldest (last_timestamp ?db1 ''C1'') = ''100''"
    by (simp add: last_timestamp_def oldest_def)
  have h: "conversations_history newest_first_client ''C1'' (oldest (last_timestamp ?db1 ''C1'')) 50
             = Inr ?resp"
    unfolding lt by (simp add: scenario_defs)
  have nf: "\<forall>k. \<not> no_faults k" by (simp add: no_faults_def)
  from archive_twice_idempotent [OF refl h _ _ nf] c show ?thesis by simp
qed

subsection \<open>Order of a query\<close>

text \<open>
  C7. In every reachable store, for every channel and every limit and offset that
  SQLite can bind, \<open>get_channel_messages\<close> returns the \<open>LIMIT\<close>/\<open>OFFSET\<close> window of the
  channel's stored rows sorted by position (\<open>timestamp\<close>) ascending with ties broken by
  \<open>message_id\<close>, whatever the order in which the rows were inserted: the sorted list
  holds exactly the channel's rows, its positions are ascending and pairwise distinct.
  The source orders by \<open>timestamp\<close> alone; every row it writes has \<open>timestamp\<close> equal to
  \<open>message_id\<close>, the primary key, so two rows never tie and the order by
  \<open>(timestamp, message_id)\<close> is the order by \<open>timestamp\<close>.
\<close>

theorem get_channel_messages_sorted:
  assumes "reachable db" and "sqlite_int limit" and "sqlite_int offset"
  shows "\<exists>full.
           full = sort_key (\<lambda>r. (timestamp r, message_id r))
                    (filter (\<lambda>r. msg_channel_id r = cid) (messages db))
         \<and> get_channel_messages db cid limit offset
             = Inr (map row_to_dict (limit_offset limit offset full))
         \<and> set full = {r \<in> set (messages db). msg_channel_id r = cid}
         \<and> sorted (map timestamp full) \<and> distinct (map timestamp full)
         \<and> sorted (map timestamp (limit_offset limit offset full))
         \<and> sorted (map (\<lambda>r. (timestamp r, message_id r)) (limit_offset limit offset full))"
proof -
  let ?rows = "filter (\<lambda>r. msg_channel_id r = cid) (messages db)"
  let ?full = "sort_key (\<lambda>r. (timestamp r, message_id r)) ?rows"
  from reachable_key [OF assms(1)]
  have key: "distinct (map message_id (messages db))"
    and ts: "\<forall>r\<in>set (messages db). timestamp r = message_id r"
    by simp_all
  from ts have ts': "\<forall>r\<in>set ?rows. timestamp r = message_id r" by simp
  from sort_by_timestamp_and_id [OF ts']
  have same: "sort_key timestamp ?rows = ?full" .
  with assms(2,3)
  have query: "get_channel_messages db cid limit offset
                 = Inr (map row_to_dict (limit_offset limit offset ?full))"
    by (simp add: get_channel_messages_def)
  have rows: "set ?full = {r \<in> set (messages db). msg_channel_id r = cid}"
    by auto
  have sorted_ts: "sorted (map timestamp ?full)"
    unfolding same [symmetric] by (rule sorted_sort_key)
  have sorted_pair: "sorted (map (\<lambda>r. (timestamp r, message_id r)) ?full)"
    by (rule sorted_sort_key)
  from ts' have eq: "map timestamp ?rows = map message_id ?rows"
    by simp
  have "distinct (map timestamp ?rows)"
    unfolding eq using key by (rule distinct_map_filter)
  then have "distinct (map timestamp (sort_key timestamp ?rows))"
    by (simp add: distinct_map inj_on_def)
  then have distinct_ts: "distinct (map timestamp ?full)"
    unfolding same .
  from query rows sorted_ts distinct_ts
    sorted_limit_offset [OF sorted_ts, of limit offset]
    sorted_limit_offset [OF sorted_pair, of limit offset]
  show ?thesis by blast
qed

text \<open>
  The rows of \<open>C1\<close> were inserted newest first (100, 099, 098); the query with limit 2
  and offset 1 returns 099 and 100.
\<close>

theorem get_channel_messages_sorted_witness:
  "get_channel_messages
     (snd (archive_channel_messages no_faults newest_first_client ''C1''
             (registered newest_first_client [''C1''])))
     ''C1'' 2 1
   = Inr [\<lparr>d_message_id = ''099'', d_timestamp = ''099'', d_user = ''U2'', d_text = ''two''\<rparr>,
          \<lparr>d_message_id = ''100'', d_timestamp = ''100'', d_user = ''U1'', d_text = ''three''\<rparr>]
   \<and> map message_id
       (messages (snd (archive_channel_messages no_faults newest_first_client ''C1''
                         (registered newest_first_client [''C1'']))))
       = [''100'', ''099'', ''098'']"
proof -
  let ?db = "snd (archive_channel_messages no_faults newest_first_client ''C1''
                    (registered newest_first_client [''C1'']))"
  have r: "reachable ?db"
    by (rule reachable_after_first_run)
  have l: "sqlite_int 2" and o: "sqlite_int 1"
    by (simp_all add: sqlite_int_def)
  have rows: "messages ?db =
       [\<lparr>message_id = ''100'', msg_channel_id = ''C1'', timestamp = ''100'',
          user = ''U1'', msg_text = ''three''\<rparr>,
        \<lparr>message_id = ''099'', msg_channel_id = ''C1'', timestamp = ''099'',
          user = ''U2'', msg_text = ''two''\<rparr>,
        \<lparr>message_id = ''098'', msg_channel_id = ''C1'', timestamp = ''098'',
          user = ''U1'', msg_text = ''one''\<rparr>]"
    by (simp add: store_defs scenario_defs)
  from get_channel_messages_sorted [OF r l o, of "''C1''"]
  have "get_channel_messages ?db ''C1'' 2 1
          = Inr (map row_to_dict (limit_offset 2 1
                   (sort_key (\<lambda>r. (timestamp r, message_id r))
                      (filter (\<lambda>r. msg_channel_id r = ''C1'') (messages ?db)))))"
    by blast
  also have "\<dots> = Inr [\<lparr>d_message_id = ''099'', d_timestamp = ''099'', d_user = ''U2'', d_text = ''two''\<rparr>,
          \<lparr>d_message_id = ''100'', d_timestamp = ''100'', d_user = ''U1'', d_text = ''three''\<rparr>]"
    unfolding rows by (simp add: limit_offset_def row_to_dict_def less_eq_prod_def)
  finally show ?thesis using rows by simp
qed

subsection \<open>Archiving a channel that was never registered\<close>

text \<open>
  C8, as the code has it. For every channel id that has no row in \<open>channels\<close>, the
  SELECT of \<open>archive_channel_messages\<close> finds nothing and the cursor is taken as
  \<open>None\<close>: no error is raised and the run proceeds from the beginning, with \<open>'0'\<close> as the
  lower bound. With a page whose messages all have a \<open>ts\<close> and no storage fault the
  run returns normally and the messages of the page are stored; the UPDATE matches no
  row, so the table \<open>channels\<close> is as before and the channel stays unregistered.
\<close>

theorem archive_unregistered_channel:
  assumes "fetchone_cursor db cid = None"
    and "conversations_history client cid ''0'' 50 = Inr resp"
    and "\<forall>k. \<not> F k"
    and "\<forall>m\<in>set (resp_messages resp). m ''ts'' \<noteq> None"
  shows "last_timestamp db cid = None
       \<and> oldest (last_timestamp db cid) = ''0''
       \<and> fst (archive_channel_messages F client cid db) = Inr ()
       \<and> (\<forall>m\<in>set (resp_messages resp).
             \<exists>ts. m ''ts'' = Some ts
               \<and> ts \<in> message_id ` set (messages (snd (archive_channel_messages F client cid db))))
       \<and> channels (snd (archive_channel_messages F client cid db)) = channels db
       \<and> fetchone_cursor (snd (archive_channel_messages F client cid db)) cid = None"
proof -
  let ?run = "archive_channel_messages F client cid db"
  from assms(1) have lt: "last_timestamp db cid = None"
    by (simp add: last_timestamp_def)
  then have old: "oldest (last_timestamp db cid) = ''0''"
    by (simp add: oldest_def)
  from assms(2) old
  have h: "conversations_history client cid (oldest (last_timestamp db cid)) 50 = Inr resp"
    by simp
  from assms(3,4) have "\<not> (\<exists>e. ?run = (Inl e, db))"
    unfolding conjunct2 [OF archive_run_cases [OF h]] by simp
  with conjunct1 [OF archive_run_cases [OF h, of F]]
  obtain db' where run: "?run = (Inr (), db')"
    and stored: "\<forall>m\<in>set (resp_messages resp).
                   \<exists>ts. m ''ts'' = Some ts \<and> ts \<in> message_id ` set (messages db')"
    by blast
  from run have body: "archive_body F client cid db = Inr db'"
    by (auto simp: archive_channel_messages_def with_connection_def split: sum.splits)
  from archive_body_Inr [OF h body] obtain rows chans where
    upd: "update_last_archived F (Suc (length (resp_messages resp))) cid (resp_messages resp)
            (channels db) = Inr chans"
    and db': "db' = \<lparr>channels = chans, messages = rows\<rparr>"
    by blast
  from assms(1) have none: "find (\<lambda>r. channel_id r = cid) (channels db) = None"
    by (simp add: fetchone_cursor_def)
  from update_last_archived_Inr [OF upd] update_cursor_unregistered [OF none]
  have "chans = channels db" by auto
  with db' have chans: "channels db' = channels db" by simp
  with assms(1) have "fetchone_cursor db' cid = None"
    by (simp add: fetchone_cursor_def)
  with lt old run stored chans show ?thesis by simp
qed

theorem archive_unregistered_channel_witness:
  "fetchone_cursor (setup_database None) ''C1'' = None
   \<and> fst (archive_channel_messages no_faults paged_client ''C1'' (setup_database None)) = Inr ()
   \<and> channels (snd (archive_channel_messages no_faults paged_client ''C1'' (setup_database None)))
       = []"
proof -
  let ?db = "setup_database None"
  have a: "fetchone_cursor ?db ''C1'' = None"
    by (simp add: store_defs)
  have h: "conversations_history paged_client ''C1'' ''0'' 50
             = Inr \<lparr>resp_messages = page1, has_more = True\<rparr>"
    by (simp add: scenario_defs)
  have nf: "\<forall>k. \<not> no_faults k"
    by (simp add: no_faults_def)
  have ts: "\<forall>m\<in>set (resp_messages \<lparr>resp_messages = page1, has_more = True\<rparr>). m ''ts'' \<noteq> None"
    by (simp add: page1_def slack_message_def)
  from archive_unregistered_channel [OF a h nf ts] a show ?thesis
    by (simp add: setup_database_def)
qed

text \<open>
  The claim as stated fails: on a fresh database the channel \<open>C1\<close> has no row, yet the
  run raises nothing and stores the page.
\<close>

theorem unregistered_channel_counterexample:
  "fetchone_cursor (setup_database None) ''C1'' = None
   \<and> fst (archive_channel_messages no_faults paged_client ''C1'' (setup_database None)) = Inr ()
   \<and> map message_id
       (messages (snd (archive_channel_messages no_faults paged_client ''C1'' (setup_database None))))
       = [''098'', ''099'', ''100'']"
  by (simp add: store_defs scenario_defs)

subsection \<open>Failures during a run over all channels\<close>

text \<open>
  C9, as the code has it. \<open>archive_channel_messages\<close> catches \<open>SlackApiError\<close> and nothing
  else, and \<open>schedule_archiving\<close> catches nothing. So when no storage statement faults
  and the client raises nothing but \<open>SlackApiError\<close> (channel not found, rate limited)
  and delivers messages with a \<open>ts\<close>, the run over all channels returns normally, its
  final store is the composition of the runs of every registered channel, in
  ascending order of channel id, and each channel whose request raises \<open>SlackApiError\<close> keeps its cursor. Any other
  exception, a storage error in particular, is not contained: when the channels before
  \<open>c\<close> have been archived and the run of \<open>c\<close> raises, that run is rolled back, the
  exception leaves \<open>schedule_archiving\<close> and the channels after \<open>c\<close> are not processed.
\<close>

theorem schedule_archiving_failures:
  "(\<not> F 0 \<and> (\<forall>c k. \<not> FS c k)
      \<and> (\<forall>c since e. conversations_history client c since 50 = Inl e \<longrightarrow>
             (\<exists>s. e = SlackApiError s))
      \<and> (\<forall>c since r. conversations_history client c since 50 = Inr r \<longrightarrow>
             (\<forall>m\<in>set (resp_messages r). m ''ts'' \<noteq> None))
    \<longrightarrow> fst (schedule_archiving F FS client db) = Inr ()
      \<and> snd (schedule_archiving F FS client db)
          = fold (\<lambda>c d. snd (archive_channel_messages (FS c) client c d))
              (sort (map channel_id (channels db))) db
      \<and> (\<forall>c s. conversations_history client c (oldest (last_timestamp db c)) 50
                   = Inl (SlackApiError s) \<longrightarrow>
             fetchone_cursor (snd (schedule_archiving F FS client db)) c = fetchone_cursor db c))
   \<and> (\<forall>before c after d e.
         \<not> F 0 \<and> sort (map channel_id (channels db)) = before @ c # after
         \<and> archive_each FS client before db = (Inr (), d)
         \<and> fst (archive_channel_messages (FS c) client c d) = Inl e
       \<longrightarrow> schedule_archiving F FS client db = (Inl e, d))"
proof (intro conjI impI allI)
  assume h: "\<not> F 0 \<and> (\<forall>c k. \<not> FS c k)
      \<and> (\<forall>c since e. conversations_history client c since 50 = Inl e \<longrightarrow>
             (\<exists>s. e = SlackApiError s))
      \<and> (\<forall>c since r. conversations_history client c since 50 = Inr r \<longrightarrow>
             (\<forall>m\<in>set (resp_messages r). m ''ts'' \<noteq> None))"
  then have nf: "\<not> F 0" and nfs: "\<forall>c k. \<not> FS c k"
    and errs: "\<forall>c since e. conversations_history client c since 50 = Inl e \<longrightarrow>
             (\<exists>s. e = SlackApiError s)"
    and tss: "\<forall>c since r. conversations_history client c since 50 = Inr r \<longrightarrow>
             (\<forall>m\<in>set (resp_messages r). m ''ts'' \<noteq> None)"
    by blast+
  from nf archive_each_without_faults [OF nfs errs tss, of "sort (map channel_id (channels db))" db]
  have run: "schedule_archiving F FS client db =
               (Inr (), fold (\<lambda>c d. snd (archive_channel_messages (FS c) client c d))
                          (sort (map channel_id (channels db))) db)"
    by (simp add: schedule_archiving_def)
  from run show "fst (schedule_archiving F FS client db) = Inr ()" by simp
  from run show "snd (schedule_archiving F FS client db)
          = fold (\<lambda>c d. snd (archive_channel_messages (FS c) client c d))
              (sort (map channel_id (channels db))) db" by simp
  fix c s
  assume "conversations_history client c (oldest (last_timestamp db c)) 50 = Inl (SlackApiError s)"
  from fold_archive_keeps_failed_cursor [OF this refl, of FS "sort (map channel_id (channels db))"] run
  show "fetchone_cursor (snd (schedule_archiving F FS client db)) c = fetchone_cursor db c"
    by simp
next
  fix before c after d e
  assume h: "\<not> F 0 \<and> sort (map channel_id (channels db)) = before @ c # after
         \<and> archive_each FS client before db = (Inr (), d)
         \<and> fst (archive_channel_messages (FS c) client c d) = Inl e"
  then have "fst (archive_channel_messages (FS c) client c d) = Inl e"
    by simp
  then have "archive_each FS client (c # after) d = (Inl e, d)"
    by (rule archive_each_propagates)
  with h have "archive_each FS client (before @ c # after) db = (Inl e, d)"
    by (simp add: archive_each_append)
  with h show "schedule_archiving F FS client db = (Inl e, d)"
    by (simp add: schedule_archiving_def)
qed

text \<open>
  Channel \<open>B\<close> was registered before channel \<open>A\<close>; \<open>A\<close> is unknown upstream, \<open>B\<close> holds
  one message: the run returns normally, \<open>A\<close> keeps its cursor and the message of \<open>B\<close>
  is stored.
\<close>

theorem schedule_archiving_failures_witness:
  "fst (schedule_archiving no_faults (\<lambda>c. no_faults) unknown_A_client
          (registered unknown_A_client [''B'', ''A''])) = Inr ()
   \<and> fetchone_cursor
       (snd (schedule_archiving no_faults (\<lambda>c. no_faults) unknown_A_client
               (registered unknown_A_client [''B'', ''A''])))
       ''A'' = Some None
   \<and> map msg_channel_id
       (messages (snd (schedule_archiving no_faults (\<lambda>c. no_faults) unknown_A_client
                         (registered unknown_A_client [''B'', ''A'']))))
       = [''B'']"
proof -
  let ?db = "registered unknown_A_client [''B'', ''A'']"
  let ?run = "schedule_archiving no_faults (\<lambda>c. no_faults) unknown_A_client ?db"
  have hyp: "\<not> no_faults 0 \<and> (\<forall>c k. \<not> (\<lambda>c. no_faults) c k)
      \<and> (\<forall>c since e. conversations_history unknown_A_client c since 50 = Inl e \<longrightarrow>
             (\<exists>s. e = SlackApiError s))
      \<and> (\<forall>c since r. conversations_history unknown_A_client c since 50 = Inr r \<longrightarrow>
             (\<forall>m\<in>set (resp_messages r). m ''ts'' \<noteq> None))"
    by (auto simp: no_faults_def unknown_A_client_def slack_message_def split: if_splits)
  note contained =
    conjunct1 [OF schedule_archiving_failures
      [where F = no_faults and FS = "\<lambda>c. no_faults" and client = unknown_A_client
         and db = "?db"],
      THEN mp, OF hyp]
  from contained have ok: "fst ?run = Inr ()"
    by (rule conjunct1)
  from contained
  have kept: "\<forall>c s. conversations_history unknown_A_client c (oldest (last_timestamp ?db c)) 50
                   = Inl (SlackApiError s) \<longrightarrow>
             fetchone_cursor (snd ?run) c = fetchone_cursor ?db c"
    by (rule conjunct2 [THEN conjunct2])
  have "conversations_history unknown_A_client ''A'' (oldest (last_timestamp ?db ''A'')) 50
          = Inl (SlackApiError ''channel_not_found'')"
    by (simp add: unknown_A_client_def)
  with kept have "fetchone_cursor (snd ?run) ''A'' = fetchone_cursor ?db ''A''"
    by blast
  moreover have "fetchone_cursor ?db ''A'' = Some None"
    by (simp add: store_defs scenario_defs)
  moreover have "map msg_channel_id (messages (snd ?run)) = [''B'']"
    by (simp add: store_defs scenario_defs)
  ultimately show ?thesis using ok by simp
qed

text \<open>
  The claim as stated fails for a storage error. Channel \<open>B\<close> was registered before
  channel \<open>A\<close>; the run takes \<open>A\<close> first. The connection for \<open>A\<close> faults at its first
  statement, the run over both channels raises \<open>StorageError\<close> and leaves the store as it
  was, although a run on \<open>B\<close> alone returns normally and stores a message.
\<close>

theorem storage_error_aborts_run_counterexample:
  "schedule_archiving no_faults (faults_in ''A'' 0) same_ts_client
     (registered same_ts_client [''B'', ''A''])
   = (Inl StorageError, registered same_ts_client [''B'', ''A''])
   \<and> messages (registered same_ts_client [''B'', ''A'']) = []
   \<and> map channel_id (channels (registered same_ts_client [''B'', ''A''])) = [''B'', ''A'']
   \<and> fst (archive_channel_messages (faults_in ''A'' 0 ''B'') same_ts_client ''B''
            (registered same_ts_client [''B'', ''A''])) = Inr ()
   \<and> map msg_channel_id
       (messages (snd (archive_channel_messages (faults_in ''A'' 0 ''B'') same_ts_client ''B''
                         (registered same_ts_client [''B'', ''A''])))) = [''B'']"
  by (simp add: store_defs scenario_defs)

subsection \<open>Querying a channel without messages\<close>

text \<open>
  C10. For every channel id with no stored message, registered or not, and every limit
  and offset that SQLite can bind, \<open>get_channel_messages\<close> returns the empty list and
  raises nothing.
\<close>

theorem get_channel_messages_no_rows:
  assumes "\<forall>r\<in>set (messages db). msg_channel_id r \<noteq> cid"
    and "sqlite_int limit" and "sqlite_int offset"
  shows "get_channel_messages db cid limit offset = Inr []"
proof -
  from assms(1) have "filter (\<lambda>r. msg_channel_id r = cid) (messages db) = []"
    by (simp add: filter_empty_conv)
  with assms(2,3) show ?thesis
    by (simp add: get_channel_messages_def limit_offset_def)
qed

text \<open>
  The channel \<open>C9\<close> was never registered; the store holds the messages of \<open>C1\<close> only.
\<close>

theorem get_channel_messages_no_rows_witness:
  "get_channel_messages
     (snd (archive_channel_messages no_faults paged_client ''C1'' (registered paged_client [''C1''])))
     ''C9'' 100 0 = Inr []
   \<and> fetchone_cursor
       (snd (archive_channel_messages no_faults paged_client ''C1'' (registered paged_client [''C1''])))
       ''C9'' = None"
proof -
  let ?db = "snd (archive_channel_messages no_faults paged_client ''C1'' (registered paged_client [''C1'']))"
  have h: "\<forall>r\<in>set (messages ?db). msg_channel_id r \<noteq> ''C9''"
    by (simp add: store_defs scenario_defs)
  have l: "sqlite_int 100" and o: "sqlite_int 0"
    by (simp_all add: sqlite_int_def)
  have "fetchone_cursor ?db ''C9'' = None"
    by (simp add: store_defs scenario_defs)
  with get_channel_messages_no_rows [OF h l o] show ?thesis by simp
qed

end
